theory Spec2Isabelle
  imports Complex_Main "HOL-Library.Log_Nat"
begin

section \<open>JavaScript numbers\<close>

text \<open>
  A JavaScript \<open>number\<close> is an IEEE-754 binary64 value: a finite value, one of the two
  infinities, or NaN. A finite value is carried as the rational it denotes. The results of
  \<open>+\<close>, \<open>-\<close> and \<open>*\<close> on finite values are rounded to the nearest binary64 value, ties to
  the even significand, and overflow to an infinity (\<open>rnd\<close> below). The special values
  behave as in the language: NaN compares false with everything, \<open>Infinity - Infinity\<close> and
  \<open>0 * Infinity\<close> are NaN. The sign of zero is not represented: the comparisons, the
  truthiness test and \<open>!==\<close> used by the program do not tell \<open>-0\<close> from \<open>0\<close>.
\<close>

datatype number = Fin rat | PosInf | NegInf | NaN

text \<open>Rounding a rational to the nearest integer, a tie going to the even one.\<close>

definition roundHalfEven :: "rat \<Rightarrow> int" where
  "roundHalfEven x =
     (let f = \<lfloor>x\<rfloor>; d = x - of_int f
      in if d < 1 / 2 then f else if 1 / 2 < d then f + 1 else if even f then f else f + 1)"

text \<open>The binary exponent of a positive rational \<open>a\<close>: the \<open>k\<close> with \<open>2^k \<le> a < 2^(k+1)\<close>.\<close>

definition floorlog2 :: "rat \<Rightarrow> int" where
  "floorlog2 a = (if 1 \<le> a then bitlen \<lfloor>a\<rfloor> - 1 else - bitlen (\<lceil>1 / a\<rceil> - 1))"

text \<open>
  The binary64 value nearest to a positive rational, before the overflow test: the
  significand has 53 bits, so the spacing of the values around \<open>a\<close> is \<open>2^e\<close> with
  \<open>e = floorlog2 a - 52\<close>, and never less than \<open>2^-1074\<close>, the spacing of the subnormal
  values.
\<close>

definition rndPos :: "rat \<Rightarrow> rat" where
  "rndPos a =
     (let e = max (floorlog2 a - 52) (- 1074)
      in of_int (roundHalfEven (a / 2 powi e)) * 2 powi e)"

text \<open>Round to nearest, ties to even; a result of magnitude \<open>2^1024\<close> or more is infinite.\<close>

definition rnd :: "rat \<Rightarrow> number" where
  "rnd x =
     (if x = 0 then Fin 0
      else if 0 < x then (if 2 powi 1024 \<le> rndPos x then PosInf else Fin (rndPos x))
      else (if 2 powi 1024 \<le> rndPos (- x) then NegInf else Fin (- rndPos (- x))))"

text \<open>The rationals that are binary64 values: rounding leaves them as they are.\<close>

definition isDouble :: "rat \<Rightarrow> bool" where
  "isDouble r = (rnd r = Fin r)"

fun isFinite :: "number \<Rightarrow> bool" where
  "isFinite (Fin r) = True"
| "isFinite PosInf = False"
| "isFinite NegInf = False"
| "isFinite NaN = False"

fun num_lt :: "number \<Rightarrow> number \<Rightarrow> bool" where
  "num_lt (Fin a) (Fin b) = (a < b)"
| "num_lt (Fin a) PosInf = True"
| "num_lt (Fin a) NegInf = False"
| "num_lt (Fin a) NaN = False"
| "num_lt PosInf b = False"
| "num_lt NegInf (Fin b) = True"
| "num_lt NegInf PosInf = True"
| "num_lt NegInf NegInf = False"
| "num_lt NegInf NaN = False"
| "num_lt NaN b = False"

definition num_gt :: "number \<Rightarrow> number \<Rightarrow> bool" where
  "num_gt a b = num_lt b a"

definition num_le :: "number \<Rightarrow> number \<Rightarrow> bool" where
  "num_le a b = (a \<noteq> NaN \<and> b \<noteq> NaN \<and> (a = b \<or> num_lt a b))"

fun num_neg :: "number \<Rightarrow> number" where
  "num_neg (Fin a) = Fin (- a)"
| "num_neg PosInf = NegInf"
| "num_neg NegInf = PosInf"
| "num_neg NaN = NaN"

fun num_add :: "number \<Rightarrow> number \<Rightarrow> number" where
  "num_add (Fin a) (Fin b) = rnd (a + b)"
| "num_add (Fin a) PosInf = PosInf"
| "num_add (Fin a) NegInf = NegInf"
| "num_add (Fin a) NaN = NaN"
| "num_add PosInf (Fin b) = PosInf"
| "num_add PosInf PosInf = PosInf"
| "num_add PosInf NegInf = NaN"
| "num_add PosInf NaN = NaN"
| "num_add NegInf (Fin b) = NegInf"
| "num_add NegInf PosInf = NaN"
| "num_add NegInf NegInf = NegInf"
| "num_add NegInf NaN = NaN"
| "num_add NaN b = NaN"

definition num_sub :: "number \<Rightarrow> number \<Rightarrow> number" where
  "num_sub a b = num_add a (num_neg b)"

definition inf_of_sign :: "rat \<Rightarrow> number" where
  "inf_of_sign a = (if a = 0 then NaN else if 0 < a then PosInf else NegInf)"

fun num_mul :: "number \<Rightarrow> number \<Rightarrow> number" where
  "num_mul (Fin a) (Fin b) = rnd (a * b)"
| "num_mul (Fin a) PosInf = inf_of_sign a"
| "num_mul (Fin a) NegInf = inf_of_sign (- a)"
| "num_mul (Fin a) NaN = NaN"
| "num_mul PosInf (Fin b) = inf_of_sign b"
| "num_mul PosInf PosInf = PosInf"
| "num_mul PosInf NegInf = NegInf"
| "num_mul PosInf NaN = NaN"
| "num_mul NegInf (Fin b) = inf_of_sign (- b)"
| "num_mul NegInf PosInf = NegInf"
| "num_mul NegInf NegInf = PosInf"
| "num_mul NegInf NaN = NaN"
| "num_mul NaN b = NaN"

text \<open>Truthiness of a number: everything but \<open>0\<close> and NaN.\<close>

definition truthy :: "number \<Rightarrow> bool" where
  "truthy n = (n \<noteq> NaN \<and> n \<noteq> Fin 0)"

text \<open>\<open>x || 0\<close> for a field that may be \<open>undefined\<close> (\<open>None\<close>).\<close>

definition orZero :: "number option \<Rightarrow> number" where
  "orZero x = (case x of None \<Rightarrow> Fin 0 | Some n \<Rightarrow> if truthy n then n else Fin 0)"

text \<open>\<open>x && ...\<close> on an optional number: is the field truthy?\<close>

definition truthyOpt :: "number option \<Rightarrow> bool" where
  "truthyOpt x = (case x of None \<Rightarrow> False | Some n \<Rightarrow> truthy n)"

text \<open>\<open>Number.isFinite(x) ? x : d\<close>; \<open>Number.isFinite(undefined)\<close> is false.\<close>

definition finiteOr :: "number option \<Rightarrow> number \<Rightarrow> number" where
  "finiteOr x d = (case x of None \<Rightarrow> d | Some n \<Rightarrow> if isFinite n then n else d)"

text \<open>\<open>const clampNonNeg = (n) => (Number.isFinite(n) && n > 0 ? n : 0)\<close>\<close>

definition clampNonNeg :: "number \<Rightarrow> number" where
  "clampNonNeg n = (if isFinite n \<and> num_gt n (Fin 0) then n else Fin 0)"

section \<open>Strings\<close>

text \<open>
  \<open>String.prototype.trim\<close>. A character here is a code unit below 256; the white space
  and line terminators of the language in that range are tab, line feed, vertical tab, form
  feed, carriage return, space and the no-break space U+00A0.
\<close>

definition isSpace :: "char \<Rightarrow> bool" where
  "isSpace c = (c \<in> set [CHR '' '', CHR 0x09, CHR 0x0A, CHR 0x0B, CHR 0x0C, CHR 0x0D, CHR 0xA0])"

definition trim :: "string \<Rightarrow> string" where
  "trim s = rev (dropWhile isSpace (rev (dropWhile isSpace s)))"

text \<open>\<open>x?.trim() || undefined\<close>\<close>

definition trimOrUndefined :: "string option \<Rightarrow> string option" where
  "trimOrUndefined x =
     (case x of None \<Rightarrow> None | Some s \<Rightarrow> if trim s = [] then None else Some (trim s))"

text \<open>\<open>x || d\<close> on an optional string: the empty string is falsy.\<close>

definition strOr :: "string option \<Rightarrow> string \<Rightarrow> string" where
  "strOr x d = (case x of None \<Rightarrow> d | Some s \<Rightarrow> if s = [] then d else s)"

section \<open>Data model\<close>

datatype TrackBy = Unit | Kg

record Item =
  i_id :: string
  i_name :: string
  i_sku :: "string option"
  i_photoDataUrl :: "string option"
  i_trackBy :: TrackBy
  i_unitLabel :: "string option"
  i_pricePerUnit :: "number option"
  i_pricePerKg :: "number option"
  i_stockUnits :: "number option"
  i_stockKg :: "number option"
  i_createdAt :: int
  i_updatedAt :: int

record Sale =
  s_id :: string
  s_itemId :: string
  s_qtyUnits :: "number option"
  s_qtyKg :: "number option"
  s_unitPrice :: "number option"
  s_kgPrice :: "number option"
  s_total :: number
  s_note :: "string option"
  s_photoDataUrl :: "string option"
  s_timestamp :: int

text \<open>
  The application state: the two collections held by \<open>useState\<close>. The element types are
  parameters because the import path stores whatever arrays the backup file holds.
\<close>

record ('i, 's) state =
  items :: "'i list"
  sales :: "'s list"

type_synonym ledger = "(Item, Sale) state"

text \<open>
  A key of a \<open>Partial<T>\<close> object literal is either left out or given; an optional field
  that is given may still be given as \<open>undefined\<close>. Object spread copies every given key,
  an \<open>undefined\<close> one included.
\<close>

datatype 'a field = Omitted | Given 'a

definition spread :: "'a \<Rightarrow> 'a field \<Rightarrow> 'a" where
  "spread old f = (case f of Omitted \<Rightarrow> old | Given v \<Rightarrow> v)"

text \<open>Reading a key of a partial object: a key left out reads as \<open>undefined\<close>.\<close>

definition readOpt :: "'a option field \<Rightarrow> 'a option" where
  "readOpt f = (case f of Omitted \<Rightarrow> None | Given v \<Rightarrow> v)"

definition readReq :: "'a field \<Rightarrow> 'a option" where
  "readReq f = (case f of Omitted \<Rightarrow> None | Given v \<Rightarrow> Some v)"

text \<open>What the user is shown by \<open>alert\<close>: the message, with the values it interpolates.\<close>

datatype alert =
  InsufficientStock number string
| InsufficientIncrease number string
| InvalidBackup
| ImportFailed

section \<open>Item lookup and stock adjustment\<close>

text \<open>
  \<open>const itemMap = new Map(items.map((i) => [i.id, i]))\<close>: the entries are inserted in
  order, so a later item with the same id replaces an earlier one.
\<close>

definition itemMap :: "Item list \<Rightarrow> (string \<rightharpoonup> Item)" where
  "itemMap its = fold (\<lambda>i m. m(i_id i \<mapsto> i)) its Map.empty"

text \<open>The body of the \<open>prev.map\<close> callback of \<open>adjustStock\<close>.\<close>

definition adjustItem :: "string \<Rightarrow> number option \<Rightarrow> number option \<Rightarrow> int \<Rightarrow> Item \<Rightarrow> Item" where
  "adjustItem ident deltaUnits deltaKg now i =
     (if i_id i \<noteq> ident then i
      else if i_trackBy i = Unit then
        i\<lparr>i_stockUnits := Some (clampNonNeg (num_add (orZero (i_stockUnits i)) (orZero deltaUnits))),
          i_updatedAt := now\<rparr>
      else
        i\<lparr>i_stockKg := Some (clampNonNeg (num_add (orZero (i_stockKg i)) (orZero deltaKg))),
          i_updatedAt := now\<rparr>)"

definition adjustStock :: "string \<Rightarrow> number option \<Rightarrow> number option \<Rightarrow> int \<Rightarrow> Item list \<Rightarrow> Item list" where
  "adjustStock ident deltaUnits deltaKg now its = map (adjustItem ident deltaUnits deltaKg now) its"

section \<open>Sales\<close>

text \<open>The argument of \<open>addSale\<close>.\<close>

record payload =
  p_itemId :: string
  p_qtyUnits :: "number option"
  p_qtyKg :: "number option"
  p_overridePrice :: "number option"
  p_note :: "string option"

text \<open>
  \<open>addSale\<close>. The fresh id (\<open>uid()\<close>) and the two readings of the clock (\<open>Date.now()\<close>
  for the sale, and again inside \<open>adjustStock\<close>) are arguments. The result is the alert
  shown, if any, and the state after the queued updates of both collections.
\<close>

definition addSale :: "string \<Rightarrow> int \<Rightarrow> int \<Rightarrow> payload \<Rightarrow> ledger \<Rightarrow> alert option \<times> ledger" where
  "addSale newId ts now pl st =
     (case itemMap (items st) (p_itemId pl) of
        None \<Rightarrow> (None, st)
      | Some it \<Rightarrow>
          if i_trackBy it = Unit then
            (let q = clampNonNeg (orZero (p_qtyUnits pl)) in
             if num_le q (Fin 0) then (None, st)
             else
               let price = finiteOr (p_overridePrice pl) (orZero (i_pricePerUnit it));
                   total = num_mul q price
               in if num_lt (orZero (i_stockUnits it)) q then
                    (Some (InsufficientStock (orZero (i_stockUnits it)) (strOr (i_unitLabel it) ''unit'')), st)
                  else
                    let sale = \<lparr>s_id = newId, s_itemId = i_id it,
                                s_qtyUnits = Some q, s_qtyKg = None,
                                s_unitPrice = Some price, s_kgPrice = None,
                                s_total = total, s_note = trimOrUndefined (p_note pl),
                                s_photoDataUrl = None, s_timestamp = ts\<rparr>
                    in (None, \<lparr>items = adjustStock (i_id it) (Some (num_neg q)) (Some (Fin 0)) now (items st),
                               sales = sale # sales st\<rparr>))
          else
            (let qkg = clampNonNeg (orZero (p_qtyKg pl)) in
             if num_le qkg (Fin 0) then (None, st)
             else
               let priceKg = finiteOr (p_overridePrice pl) (orZero (i_pricePerKg it));
                   total = num_mul qkg priceKg
               in if num_lt (orZero (i_stockKg it)) qkg then
                    (Some (InsufficientStock (orZero (i_stockKg it)) (strOr (i_unitLabel it) ''kg'')), st)
                  else
                    let sale = \<lparr>s_id = newId, s_itemId = i_id it,
                                s_qtyUnits = None, s_qtyKg = Some qkg,
                                s_unitPrice = None, s_kgPrice = Some priceKg,
                                s_total = total, s_note = trimOrUndefined (p_note pl),
                                s_photoDataUrl = None, s_timestamp = ts\<rparr>
                    in (None, \<lparr>items = adjustStock (i_id it) (Some (Fin 0)) (Some (num_neg qkg)) now (items st),
                               sales = sale # sales st\<rparr>)))"

text \<open>
  The \<open>changes: Partial<Sale>\<close> argument of \<open>updateSale\<close>. The fields the \<open>Sale\<close>
  interface requires are either left out or given a value; the optional ones may also be
  given as \<open>undefined\<close>, as the edit form does for an empty note.
\<close>

record changes =
  c_id :: "string field"
  c_itemId :: "string field"
  c_qtyUnits :: "number option field"
  c_qtyKg :: "number option field"
  c_unitPrice :: "number option field"
  c_kgPrice :: "number option field"
  c_total :: "number field"
  c_note :: "string option field"
  c_photoDataUrl :: "string option field"
  c_timestamp :: "int field"

text \<open>\<open>const next: Sale = { ...old, ...changes }\<close>\<close>

definition mergeSale :: "Sale \<Rightarrow> changes \<Rightarrow> Sale" where
  "mergeSale old ch =
     \<lparr>s_id = spread (s_id old) (c_id ch),
      s_itemId = spread (s_itemId old) (c_itemId ch),
      s_qtyUnits = spread (s_qtyUnits old) (c_qtyUnits ch),
      s_qtyKg = spread (s_qtyKg old) (c_qtyKg ch),
      s_unitPrice = spread (s_unitPrice old) (c_unitPrice ch),
      s_kgPrice = spread (s_kgPrice old) (c_kgPrice ch),
      s_total = spread (s_total old) (c_total ch),
      s_note = spread (s_note old) (c_note ch),
      s_photoDataUrl = spread (s_photoDataUrl old) (c_photoDataUrl ch),
      s_timestamp = spread (s_timestamp old) (c_timestamp ch)\<rparr>"

text \<open>
  \<open>updateSale\<close>: the updater passed to \<open>setSales\<close>, together with the \<open>adjustStock\<close> it
  queues. \<open>return prev\<close> leaves both collections as they were.
\<close>

definition updateSale :: "string \<Rightarrow> changes \<Rightarrow> int \<Rightarrow> ledger \<Rightarrow> alert option \<times> ledger" where
  "updateSale saleId ch now st =
     (case find (\<lambda>s. s_id s = saleId) (sales st) of
        None \<Rightarrow> (None, st)
      | Some old \<Rightarrow>
        (case itemMap (items st) (s_itemId old) of
           None \<Rightarrow> (None, st)
         | Some it \<Rightarrow>
           (let next = mergeSale old ch in
            if i_trackBy it = Unit then
              (let oldQty = clampNonNeg (orZero (s_qtyUnits old));
                   newQty = clampNonNeg (orZero (s_qtyUnits next));
                   delta = num_sub newQty oldQty;
                   available = orZero (i_stockUnits it)
               in if delta \<noteq> Fin 0 \<and> num_gt delta (Fin 0) \<and> num_lt available delta then
                    (Some (InsufficientIncrease available (strOr (i_unitLabel it) ''unit'')), st)
                  else
                    let its = (if delta \<noteq> Fin 0
                               then adjustStock (i_id it) (Some (num_neg delta)) (Some (Fin 0)) now (items st)
                               else items st);
                        price = finiteOr (s_unitPrice next) (orZero (i_pricePerUnit it));
                        next' = next\<lparr>s_total := num_mul price newQty\<rparr>
                    in (None, \<lparr>items = its,
                               sales = map (\<lambda>s. if s_id s = saleId then next' else s) (sales st)\<rparr>))
            else
              (let oldKg = clampNonNeg (orZero (s_qtyKg old));
                   newKg = clampNonNeg (orZero (s_qtyKg next));
                   delta = num_sub newKg oldKg;
                   available = orZero (i_stockKg it)
               in if delta \<noteq> Fin 0 \<and> num_gt delta (Fin 0) \<and> num_lt available delta then
                    (Some (InsufficientIncrease available (strOr (i_unitLabel it) ''kg'')), st)
                  else
                    let its = (if delta \<noteq> Fin 0
                               then adjustStock (i_id it) (Some (Fin 0)) (Some (num_neg delta)) now (items st)
                               else items st);
                        price = finiteOr (s_kgPrice next) (orZero (i_pricePerKg it));
                        next' = next\<lparr>s_total := num_mul price newKg\<rparr>
                    in (None, \<lparr>items = its,
                               sales = map (\<lambda>s. if s_id s = saleId then next' else s) (sales st)\<rparr>)))))"

text \<open>
  \<open>deleteSale\<close>: the two \<open>if\<close> statements run one after the other on the same \<open>it\<close>;
  each queues an \<open>adjustStock\<close>.
\<close>

definition deleteSale :: "string \<Rightarrow> int \<Rightarrow> ledger \<Rightarrow> ledger" where
  "deleteSale saleId now st =
     (case find (\<lambda>x. s_id x = saleId) (sales st) of
        None \<Rightarrow> st
      | Some s \<Rightarrow>
        (let its =
           (case itemMap (items st) (s_itemId s) of
              None \<Rightarrow> items st
            | Some it \<Rightarrow>
              (let its1 = (if i_trackBy it = Unit \<and> truthyOpt (s_qtyUnits s)
                           then adjustStock (i_id it) (s_qtyUnits s) (Some (Fin 0)) now (items st)
                           else items st)
               in if i_trackBy it = Kg \<and> truthyOpt (s_qtyKg s)
                  then adjustStock (i_id it) (Some (Fin 0)) (s_qtyKg s) now its1
                  else its1))
         in \<lparr>items = its, sales = filter (\<lambda>x. s_id x \<noteq> saleId) (sales st)\<rparr>))"

section \<open>Statistics per item\<close>

record stats =
  soldUnits :: number
  soldKg :: number
  revenue :: number

definition zeroStats :: stats where
  "zeroStats = \<lparr>soldUnits = Fin 0, soldKg = Fin 0, revenue = Fin 0\<rparr>"

text \<open>The first loop: \<open>base.set(it.id, { soldUnits: 0, soldKg: 0, revenue: 0 })\<close>.\<close>

definition baseStats :: "Item list \<Rightarrow> (string \<rightharpoonup> stats)" where
  "baseStats its = fold (\<lambda>it m. m(i_id it \<mapsto> zeroStats)) its Map.empty"

text \<open>
  The body of the second loop. \<open>continue\<close> leaves the map as it is; otherwise the entry is
  updated in place. \<open>s.total || 0\<close> reads the required field \<open>total\<close>.
\<close>

definition addSaleStats :: "Sale \<Rightarrow> (string \<rightharpoonup> stats) \<Rightarrow> (string \<rightharpoonup> stats)" where
  "addSaleStats s m =
     (case m (s_itemId s) of
        None \<Rightarrow> m
      | Some st \<Rightarrow>
          m(s_itemId s \<mapsto>
            \<lparr>soldUnits = num_add (soldUnits st) (clampNonNeg (orZero (s_qtyUnits s))),
             soldKg = num_add (soldKg st) (clampNonNeg (orZero (s_qtyKg s))),
             revenue = num_add (revenue st) (clampNonNeg (orZero (Some (s_total s))))\<rparr>))"

definition statsByItem :: "Item list \<Rightarrow> Sale list \<Rightarrow> (string \<rightharpoonup> stats)" where
  "statsByItem its sls = fold addSaleStats sls (baseStats its)"

section \<open>Creating and updating items\<close>

text \<open>
  The \<open>partial: Partial<Item> & { id?: string }\<close> argument of \<open>upsertItem\<close>, with the same
  reading of keys as for \<open>changes\<close>.
\<close>

record partialItem =
  u_id :: "string field"
  u_name :: "string field"
  u_sku :: "string option field"
  u_photoDataUrl :: "string option field"
  u_trackBy :: "TrackBy field"
  u_unitLabel :: "string option field"
  u_pricePerUnit :: "number option field"
  u_pricePerKg :: "number option field"
  u_stockUnits :: "number option field"
  u_stockKg :: "number option field"
  u_createdAt :: "int field"
  u_updatedAt :: "int field"

text \<open>\<open>{ ...i, ...partial, updatedAt: Date.now() }\<close>\<close>

definition mergeItem :: "Item \<Rightarrow> partialItem \<Rightarrow> int \<Rightarrow> Item" where
  "mergeItem i p now =
     \<lparr>i_id = spread (i_id i) (u_id p),
      i_name = spread (i_name i) (u_name p),
      i_sku = spread (i_sku i) (u_sku p),
      i_photoDataUrl = spread (i_photoDataUrl i) (u_photoDataUrl p),
      i_trackBy = spread (i_trackBy i) (u_trackBy p),
      i_unitLabel = spread (i_unitLabel i) (u_unitLabel p),
      i_pricePerUnit = spread (i_pricePerUnit i) (u_pricePerUnit p),
      i_pricePerKg = spread (i_pricePerKg i) (u_pricePerKg p),
      i_stockUnits = spread (i_stockUnits i) (u_stockUnits p),
      i_stockKg = spread (i_stockKg i) (u_stockKg p),
      i_createdAt = spread (i_createdAt i) (u_createdAt p),
      i_updatedAt = now\<rparr>"

text \<open>The object literal \<open>newI\<close> of the creating branch.\<close>

definition newItem :: "string \<Rightarrow> int \<Rightarrow> partialItem \<Rightarrow> Item" where
  "newItem newId now p =
     (let trackBy = (case readReq (u_trackBy p) of None \<Rightarrow> Unit | Some t \<Rightarrow> t) in
      \<lparr>i_id = newId,
       i_name = strOr (map_option trim (readReq (u_name p))) ''Unnamed'',
       i_sku = trimOrUndefined (readOpt (u_sku p)),
       i_photoDataUrl = readOpt (u_photoDataUrl p),
       i_trackBy = trackBy,
       i_unitLabel = Some (strOr (readOpt (u_unitLabel p)) (if trackBy = Kg then ''kg'' else ''unit'')),
       i_pricePerUnit = readOpt (u_pricePerUnit p),
       i_pricePerKg = readOpt (u_pricePerKg p),
       i_stockUnits = (if trackBy = Unit then Some (clampNonNeg (orZero (readOpt (u_stockUnits p)))) else None),
       i_stockKg = (if trackBy = Kg then Some (clampNonNeg (orZero (readOpt (u_stockKg p)))) else None),
       i_createdAt = now,
       i_updatedAt = now\<rparr>)"

text \<open>\<open>upsertItem\<close>: \<open>if (partial.id)\<close> holds for a given, non-empty id.\<close>

definition upsertItem :: "string \<Rightarrow> int \<Rightarrow> partialItem \<Rightarrow> Item list \<Rightarrow> Item list" where
  "upsertItem newId now p its =
     (case u_id p of
        Given pid \<Rightarrow>
          if pid \<noteq> [] then map (\<lambda>i. if i_id i = pid then mergeItem i p now else i) its
          else newItem newId now p # its
      | Omitted \<Rightarrow> newItem newId now p # its)"

section \<open>Restoring a backup\<close>

text \<open>The values \<open>JSON.parse\<close> returns. An object is the list of its keys and values.\<close>

datatype json =
  JNull
| JBool bool
| JNumber number
| JString string
| JArray "json list"
| JObject "(string \<times> json) list"

text \<open>
  Reading the property \<open>items\<close> or \<open>sales\<close> of a parsed value: \<open>null\<close> throws a
  \<open>TypeError\<close> (\<open>None\<close>); an object yields the value under the key or \<open>undefined\<close>; an
  array, a string, a number and a boolean have no such property and yield \<open>undefined\<close>.
\<close>

fun getProp :: "json \<Rightarrow> string \<Rightarrow> json option option" where
  "getProp JNull k = None"
| "getProp (JObject kvs) k = Some (map_of kvs k)"
| "getProp v k = Some None"

text \<open>\<open>Array.isArray\<close> on the result of a property read.\<close>

fun isArray :: "json option \<Rightarrow> bool" where
  "isArray (Some (JArray xs)) = True"
| "isArray v = False"

fun elements :: "json option \<Rightarrow> json list" where
  "elements (Some (JArray xs)) = xs"
| "elements v = []"

text \<open>
  The \<open>onload\<close> handler of \<open>importJson\<close>, given the text of the file. \<open>JSON.parse\<close> is an
  argument; it returns \<open>None\<close> where the library throws. Every exception ends in the
  \<open>catch\<close> block.
\<close>

definition importJson :: "(string \<Rightarrow> json option) \<Rightarrow> string \<Rightarrow> (json, json) state \<Rightarrow> alert option \<times> (json, json) state" where
  "importJson parse text st =
     (case parse (if text = [] then ''{}'' else text) of
        None \<Rightarrow> (Some ImportFailed, st)
      | Some parsed \<Rightarrow>
        (case getProp parsed ''items'' of
           None \<Rightarrow> (Some ImportFailed, st)
         | Some its \<Rightarrow>
             if \<not> isArray its then (Some InvalidBackup, st)
             else
               (case getProp parsed ''sales'' of
                  None \<Rightarrow> (Some ImportFailed, st)
                | Some sls \<Rightarrow>
                    if \<not> isArray sls then (Some InvalidBackup, st)
                    else (None, \<lparr>items = elements its, sales = elements sls\<rparr>))))"

section \<open>Sequences of ledger operations\<close>

datatype ledgerOp =
  AdjustStock string "number option" "number option" int
| AddSale string int int payload
| UpdateSale string changes int
| DeleteSale string int

fun applyOp :: "ledgerOp \<Rightarrow> ledger \<Rightarrow> ledger" where
  "applyOp (AdjustStock ident du dk now) st = st\<lparr>items := adjustStock ident du dk now (items st)\<rparr>"
| "applyOp (AddSale newId ts now pl) st = snd (addSale newId ts now pl st)"
| "applyOp (UpdateSale saleId ch now) st = snd (updateSale saleId ch now st)"
| "applyOp (DeleteSale saleId now) st = deleteSale saleId now st"

definition runOps :: "ledgerOp list \<Rightarrow> ledger \<Rightarrow> ledger" where
  "runOps ops st = fold applyOp ops st"

section \<open>What an operation reads of an item and of a sale, by tracking mode\<close>

text \<open>The stock the checks read: \<open>it.stockUnits || 0\<close>, or \<open>it.stockKg || 0\<close>.\<close>

definition stockOf :: "Item \<Rightarrow> number" where
  "stockOf it = (if i_trackBy it = Unit then orZero (i_stockUnits it) else orZero (i_stockKg it))"

text \<open>The catalog price: \<open>it.pricePerUnit || 0\<close>, or \<open>it.pricePerKg || 0\<close>.\<close>

definition catalogPrice :: "Item \<Rightarrow> number" where
  "catalogPrice it = (if i_trackBy it = Unit then orZero (i_pricePerUnit it) else orZero (i_pricePerKg it))"

text \<open>The quantity \<open>addSale\<close> works with: the clamped field of the item's mode.\<close>

definition requestedQty :: "Item \<Rightarrow> payload \<Rightarrow> number" where
  "requestedQty it pl =
     clampNonNeg (orZero (if i_trackBy it = Unit then p_qtyUnits pl else p_qtyKg pl))"

definition saleQtyField :: "Item \<Rightarrow> Sale \<Rightarrow> number option" where
  "saleQtyField it s = (if i_trackBy it = Unit then s_qtyUnits s else s_qtyKg s)"

definition salePriceField :: "Item \<Rightarrow> Sale \<Rightarrow> number option" where
  "salePriceField it s = (if i_trackBy it = Unit then s_unitPrice s else s_kgPrice s)"

definition changesPriceField :: "Item \<Rightarrow> changes \<Rightarrow> number option field" where
  "changesPriceField it ch = (if i_trackBy it = Unit then c_unitPrice ch else c_kgPrice ch)"

text \<open>The clamped quantity \<open>updateSale\<close> compares: \<open>clampNonNeg(s.qtyUnits || 0)\<close>.\<close>

definition clampedQty :: "Item \<Rightarrow> Sale \<Rightarrow> number" where
  "clampedQty it s = clampNonNeg (orZero (saleQtyField it s))"

text \<open>The invariant of the data model: the stock of the item's mode is not negative.\<close>

definition stockNonNeg :: "Item \<Rightarrow> bool" where
  "stockNonNeg it = num_le (Fin 0) (stockOf it)"

section \<open>Sample data\<close>

text \<open>
  Concrete records for the worked examples below: an item as \<open>upsertItem\<close> creates it
  (only the fields of its mode are set), a sale as \<open>addSale\<close> creates it, and the partial
  objects that give no key.
\<close>

definition sampleItem :: "string \<Rightarrow> TrackBy \<Rightarrow> number \<Rightarrow> number \<Rightarrow> Item" where
  "sampleItem ident mode price stock =
     \<lparr>i_id = ident, i_name = ''Beef'', i_sku = None, i_photoDataUrl = None,
      i_trackBy = mode,
      i_unitLabel = Some (if mode = Kg then ''kg'' else ''unit''),
      i_pricePerUnit = (if mode = Unit then Some price else None),
      i_pricePerKg = (if mode = Kg then Some price else None),
      i_stockUnits = (if mode = Unit then Some stock else None),
      i_stockKg = (if mode = Kg then Some stock else None),
      i_createdAt = 0, i_updatedAt = 0\<rparr>"

definition sampleSale :: "string \<Rightarrow> string \<Rightarrow> TrackBy \<Rightarrow> number \<Rightarrow> number \<Rightarrow> number \<Rightarrow> Sale" where
  "sampleSale ident itemIdent mode qty price tot =
     \<lparr>s_id = ident, s_itemId = itemIdent,
      s_qtyUnits = (if mode = Unit then Some qty else None),
      s_qtyKg = (if mode = Kg then Some qty else None),
      s_unitPrice = (if mode = Unit then Some price else None),
      s_kgPrice = (if mode = Kg then Some price else None),
      s_total = tot, s_note = None, s_photoDataUrl = None, s_timestamp = 0\<rparr>"

definition samplePayload :: "string \<Rightarrow> TrackBy \<Rightarrow> number \<Rightarrow> number option \<Rightarrow> payload" where
  "samplePayload itemIdent mode qty override =
     \<lparr>p_itemId = itemIdent,
      p_qtyUnits = (if mode = Unit then Some qty else None),
      p_qtyKg = (if mode = Kg then Some qty else None),
      p_overridePrice = override, p_note = None\<rparr>"

definition noChanges :: changes where
  "noChanges =
     \<lparr>c_id = Omitted, c_itemId = Omitted, c_qtyUnits = Omitted, c_qtyKg = Omitted,
      c_unitPrice = Omitted, c_kgPrice = Omitted, c_total = Omitted, c_note = Omitted,
      c_photoDataUrl = Omitted, c_timestamp = Omitted\<rparr>"

definition noFields :: partialItem where
  "noFields =
     \<lparr>u_id = Omitted, u_name = Omitted, u_sku = Omitted, u_photoDataUrl = Omitted,
      u_trackBy = Omitted, u_unitLabel = Omitted, u_pricePerUnit = Omitted,
      u_pricePerKg = Omitted, u_stockUnits = Omitted, u_stockKg = Omitted,
      u_createdAt = Omitted, u_updatedAt = Omitted\<rparr>"

section \<open>Properties\<close>

lemmas sample_defs = sampleItem_def sampleSale_def samplePayload_def noChanges_def noFields_def

lemmas mode_defs = stockOf_def catalogPrice_def requestedQty_def saleQtyField_def
  salePriceField_def changesPriceField_def clampedQty_def stockNonNeg_def

subsection \<open>Rounding\<close>

lemma floorlog2_bounds:
  assumes "0 < a"
  shows "2 powi floorlog2 a \<le> a \<and> a < 2 powi (floorlog2 a + 1)"
proof (cases "1 \<le> a")
  case True
  let ?n = "\<lfloor>a\<rfloor>"
  have n: "0 < ?n" using True by simp
  from bitlen_bounds [OF n] have b: "2 ^ nat (bitlen ?n - 1) \<le> ?n" "?n < 2 ^ nat (bitlen ?n)" by auto
  have bl: "1 \<le> bitlen ?n" using n bitlen_eq_zero_iff [of ?n] bitlen_nonneg [of ?n] by linarith
  have fl: "floorlog2 a = bitlen ?n - 1" using True by (simp add: floorlog2_def)
  have "(2::rat) powi (bitlen ?n - 1) = of_int (2 ^ nat (bitlen ?n - 1))"
    using bl by (simp add: power_int_def)
  also have "\<dots> \<le> of_int ?n" using b(1) by (simp only: of_int_le_iff)
  also have "\<dots> \<le> a" by simp
  finally have lo: "2 powi floorlog2 a \<le> a" by (simp add: fl)
  have "?n + 1 \<le> 2 ^ nat (bitlen ?n)" using b(2) by simp
  then have "(of_int (?n + 1) :: rat) \<le> of_int (2 ^ nat (bitlen ?n))" by (simp only: of_int_le_iff)
  moreover have "a < of_int (?n + 1)" by linarith
  moreover have "(2::rat) powi (bitlen ?n) = of_int (2 ^ nat (bitlen ?n))"
    using bl by (simp add: power_int_def)
  ultimately have hi: "a < 2 powi (floorlog2 a + 1)" by (simp add: fl)
  from lo hi show ?thesis ..
next
  case False
  let ?c = "\<lceil>1 / a\<rceil>"
  have y: "1 < 1 / a" using False assms by simp
  have c: "0 < ?c - 1" using y by (simp add: less_ceiling_iff)
  let ?j = "bitlen (?c - 1)"
  from bitlen_bounds [OF c] have b: "2 ^ nat (?j - 1) \<le> ?c - 1" "?c - 1 < 2 ^ nat ?j" by auto
  have bl: "1 \<le> ?j" using c bitlen_eq_zero_iff [of "?c - 1"] bitlen_nonneg [of "?c - 1"] by linarith
  have fl: "floorlog2 a = - ?j" using False by (simp add: floorlog2_def)
  have "?c \<le> 2 ^ nat ?j" using b(2) by simp
  then have "(of_int ?c :: rat) \<le> of_int (2 ^ nat ?j)" by (simp only: of_int_le_iff)
  moreover have "1 / a \<le> of_int ?c" by simp
  ultimately have "1 / a \<le> of_int (2 ^ nat ?j)" by (rule order_trans [rotated])
  then have "1 / a \<le> 2 ^ nat ?j" by simp
  then have "1 \<le> 2 ^ nat ?j * a" using assms by (simp add: field_simps)
  then have "1 / 2 ^ nat ?j \<le> a" by (simp add: field_simps)
  moreover have "(2::rat) powi (- ?j) = 1 / 2 ^ nat ?j"
    using bl by (simp add: power_int_def field_simps)
  ultimately have lo: "2 powi floorlog2 a \<le> a" by (simp add: fl)
  have "(of_int (2 ^ nat (?j - 1)) :: rat) \<le> of_int (?c - 1)" using b(1) by (simp only: of_int_le_iff)
  moreover have "of_int (?c - 1) < 1 / a" using ceiling_correct [of "1 / a"] by simp
  ultimately have "of_int (2 ^ nat (?j - 1)) < 1 / a" by (rule le_less_trans)
  then have "2 ^ nat (?j - 1) < 1 / a" by simp
  then have "2 ^ nat (?j - 1) * a < 1" using assms by (simp add: field_simps)
  then have "a < 1 / 2 ^ nat (?j - 1)" by (simp add: field_simps)
  moreover have "(2::rat) powi (- ?j + 1) = 1 / 2 ^ nat (?j - 1)"
  proof -
    have "- ?j + 1 = - (?j - 1)" by simp
    then have "(2::rat) powi (- ?j + 1) = inverse (2 powi (?j - 1))"
      by (simp only: power_int_minus)
    also have "\<dots> = 1 / 2 ^ nat (?j - 1)" using bl by (simp add: power_int_def field_simps)
    finally show ?thesis .
  qed
  ultimately have hi: "a < 2 powi (floorlog2 a + 1)" by (simp add: fl)
  from lo hi show ?thesis ..
qed

lemma floorlog2_eqI:
  assumes "2 powi k \<le> a" and "a < 2 powi (k + 1)"
  shows "floorlog2 a = k"
proof -
  have pos: "0 < a" using assms(1) zero_less_power_int [of "2::rat" k] by linarith
  from floorlog2_bounds [OF pos]
  have b: "2 powi floorlog2 a \<le> a" "a < 2 powi (floorlog2 a + 1)" by auto
  have "(2::rat) powi floorlog2 a < 2 powi (k + 1)" using b(1) assms(2) by linarith
  then have 1: "floorlog2 a < k + 1"
    using power_int_increasing [of "k + 1" "floorlog2 a" "2::rat"] by (cases "floorlog2 a < k + 1") auto
  have "(2::rat) powi k < 2 powi (floorlog2 a + 1)" using b(2) assms(1) by linarith
  then have 2: "k < floorlog2 a + 1"
    using power_int_increasing [of "floorlog2 a + 1" k "2::rat"] by (cases "k < floorlog2 a + 1") auto
  from 1 2 show ?thesis by simp
qed


lemma roundHalfEven_of_int: "roundHalfEven (of_int n) = n"
  by (simp add: roundHalfEven_def)

lemma roundHalfEven_nonneg: "0 \<le> x \<Longrightarrow> 0 \<le> roundHalfEven x"
  by (auto simp: roundHalfEven_def Let_def)

lemma roundHalfEven_ge_one: "1 \<le> x \<Longrightarrow> 1 \<le> roundHalfEven x"
proof -
  assume "1 \<le> x"
  then have "1 \<le> \<lfloor>x\<rfloor>" by simp
  then show ?thesis by (auto simp: roundHalfEven_def Let_def)
qed

lemma rndPos_nonneg: "0 \<le> a \<Longrightarrow> 0 \<le> rndPos a"
  by (simp add: rndPos_def Let_def roundHalfEven_nonneg)

lemma rnd_nonneg: "0 \<le> x \<Longrightarrow> rnd x = PosInf \<or> (\<exists>r. 0 \<le> r \<and> rnd x = Fin r)"
  by (auto simp: rnd_def rndPos_nonneg)

lemma rnd_nonpos: "x \<le> 0 \<Longrightarrow> rnd x = NegInf \<or> (\<exists>r. r \<le> 0 \<and> rnd x = Fin r)"
  by (auto simp: rnd_def rndPos_nonneg)

lemma two_powi_nonpos: "e \<le> 0 \<Longrightarrow> (2::rat) powi e = 1 / 2 ^ nat (- e)"
  by (cases "e = 0") (simp_all add: power_int_def field_simps)

lemma rndPos_of_int:
  assumes "0 < n" and "n < 2 ^ 53"
  shows "rndPos (of_int n) = of_int n"
proof -
  let ?a = "of_int n :: rat"
  have pos: "0 < ?a" using assms(1) by simp
  from floorlog2_bounds [OF pos] have lo: "2 powi floorlog2 ?a \<le> ?a" by simp
  have "?a < of_int (2 ^ 53)" using assms(2) by (simp only: of_int_less_iff)
  then have "?a < 2 powi 53" by simp
  with lo have "(2::rat) powi floorlog2 ?a < 2 powi 53" by linarith
  then have fl: "floorlog2 ?a < 53"
    using power_int_increasing [of 53 "floorlog2 ?a" "2::rat"] by (cases "floorlog2 ?a < 53") auto
  define e where "e = max (floorlog2 ?a - 52) (- 1074)"
  have e: "e \<le> 0" using fl by (simp add: e_def)
  have p: "(2::rat) powi e = 1 / 2 ^ nat (- e)" using e by (rule two_powi_nonpos)
  have "?a / 2 powi e = of_int (n * 2 ^ nat (- e))" by (simp add: p)
  then have "roundHalfEven (?a / 2 powi e) = n * 2 ^ nat (- e)"
    by (simp only: roundHalfEven_of_int)
  then have "of_int (roundHalfEven (?a / 2 powi e)) * 2 powi e = ?a"
    by (simp add: p)
  then show ?thesis by (simp add: rndPos_def Let_def e_def)
qed

lemma rnd_of_int:
  assumes "\<bar>n\<bar> < 2 ^ 53"
  shows "rnd (of_int n) = Fin (of_int n)"
proof -
  have big: "\<And>m::int. m < 2 ^ 53 \<Longrightarrow> \<not> (2::rat) powi 1024 \<le> of_int m"
  proof -
    fix m :: int assume "m < 2 ^ 53"
    then have "(of_int m :: rat) < of_int (2 ^ 53)" by (simp only: of_int_less_iff)
    then have "(of_int m :: rat) < 2 ^ 53" by simp
    moreover have "(2::rat) ^ 53 < 2 powi 1024" by simp
    ultimately show "\<not> (2::rat) powi 1024 \<le> of_int m" by linarith
  qed
  consider "n = 0" | "0 < n" | "n < 0" by linarith
  then show ?thesis
  proof cases
    case 1
    then show ?thesis by (simp add: rnd_def)
  next
    case 2
    then have "n < 2 ^ 53" using assms by simp
    from rndPos_of_int [OF 2 this] big [OF this] 2 show ?thesis by (simp add: rnd_def)
  next
    case 3
    then have a: "0 < - n" "- n < 2 ^ 53" using assms by simp_all
    from rndPos_of_int [OF a] big [OF a(2)] 3 show ?thesis by (simp add: rnd_def)
  qed
qed

lemma rnd_numeral: "(numeral k :: int) < 2 ^ 53 \<Longrightarrow> rnd (numeral k) = Fin (numeral k)"
  using rnd_of_int [of "numeral k"] by simp

lemma rnd_neg_numeral: "(numeral k :: int) < 2 ^ 53 \<Longrightarrow> rnd (- numeral k) = Fin (- numeral k)"
  using rnd_of_int [of "- numeral k"] by simp

lemma rnd_zero: "rnd 0 = Fin 0"
  by (simp add: rnd_def)

lemma rnd_one: "rnd 1 = Fin 1"
  using rnd_of_int [of 1] by simp

lemma rndPos_eval:
  assumes "2 powi k \<le> a" and "a < 2 powi (k + 1)"
  shows "rndPos a = of_int (roundHalfEven (a / 2 powi (max (k - 52) (- 1074)))) * 2 powi (max (k - 52) (- 1074))"
  using floorlog2_eqI [OF assms] by (simp add: rndPos_def Let_def)

lemma rndPos_pos:
  assumes "2 powi (- 1074) \<le> a"
  shows "0 < rndPos a"
proof -
  have pos: "0 < a" using assms zero_less_power_int [of "2::rat" "- 1074"] by linarith
  from floorlog2_bounds [OF pos] have lo: "2 powi floorlog2 a \<le> a" by simp
  define e where "e = max (floorlog2 a - 52) (- 1074)"
  have "2 powi e \<le> a"
  proof (cases "floorlog2 a - 52 \<le> - 1074")
    case True
    then show ?thesis using assms by (simp add: e_def max_def)
  next
    case False
    then have "e = floorlog2 a - 52" by (simp add: e_def max_def)
    then have "(2::rat) powi e \<le> 2 powi floorlog2 a"
      by (simp add: power_int_increasing)
    with lo show ?thesis by linarith
  qed
  then have "1 \<le> a / 2 powi e" by (simp add: field_simps)
  then have "1 \<le> roundHalfEven (a / 2 powi e)" by (rule roundHalfEven_ge_one)
  then have "0 < (of_int (roundHalfEven (a / 2 powi e)) :: rat)" by simp
  then have "0 < of_int (roundHalfEven (a / 2 powi e)) * (2::rat) powi e"
    by (simp add: zero_less_mult_iff)
  then show ?thesis by (simp add: rndPos_def Let_def e_def)
qed

lemma rnd_neg_strict:
  assumes "x \<le> - (2 powi (- 1074))"
  shows "rnd x = NegInf \<or> (\<exists>r. r < 0 \<and> rnd x = Fin r)"
proof -
  have neg: "x < 0" using assms zero_less_power_int [of "2::rat" "- 1074"] by linarith
  have "2 powi (- 1074) \<le> - x" using assms by simp
  from rndPos_pos [OF this] neg show ?thesis by (auto simp: rnd_def)
qed

lemma rnd_minus: "rnd (- x) = num_neg (rnd x)"
  by (cases "x = 0") (auto simp: rnd_def)

lemma roundHalfEven_eval:
  assumes "of_int f \<le> x" and "x < of_int f + 1"
  shows "roundHalfEven x =
           (if x - of_int f < 1 / 2 then f
            else if 1 / 2 < x - of_int f then f + 1 else if even f then f else f + 1)"
proof -
  have "\<lfloor>x\<rfloor> = f" using assms by (intro floor_unique) auto
  then show ?thesis by (simp add: roundHalfEven_def)
qed

lemma rnd_eval:
  assumes "2 powi k \<le> a" and "a < 2 powi (k + 1)"
    and "e = max (k - 52) (- 1074)"
    and "of_int f \<le> a / 2 powi e" and "a / 2 powi e < of_int f + 1"
    and "m = (if a / 2 powi e - of_int f < 1 / 2 then f
              else if 1 / 2 < a / 2 powi e - of_int f then f + 1
              else if even f then f else f + 1)"
    and "r = of_int m * 2 powi e"
  shows "rnd a = (if 2 powi 1024 \<le> r then PosInf else Fin r)"
proof -
  have pos: "0 < a" using assms(1) zero_less_power_int [of "2::rat" k] by linarith
  have "rndPos a = r"
    using rndPos_eval [OF assms(1,2)] roundHalfEven_eval [OF assms(4,5)] assms(3,6,7) by simp
  then show ?thesis using pos by (simp add: rnd_def)
qed

lemma isDouble_of_int: "\<bar>n\<bar> < 2 ^ 53 \<Longrightarrow> isDouble (of_int n)"
  by (simp add: isDouble_def rnd_of_int)

lemma isDouble_numeral: "(numeral k :: int) < 2 ^ 53 \<Longrightarrow> isDouble (numeral k)"
  using isDouble_of_int [of "numeral k"] by simp

lemma isDouble_zero: "isDouble 0"
  by (simp add: isDouble_def rnd_zero)

lemmas num_defs = clampNonNeg_def orZero_def truthy_def truthyOpt_def finiteOr_def num_gt_def
  num_le_def num_sub_def rnd_zero rnd_one rnd_numeral rnd_neg_numeral

subsection \<open>Rounding at particular values\<close>

text \<open>
  Each value is given by its binary exponent and by the integer below the scaled value. The
  argument is a variable so that the simplifier applies the fact to whatever form it has
  given the number.
\<close>

lemma rnd_below_2_60:
  assumes "x = 2 ^ 60 - 1"
  shows "rnd x = Fin (2 ^ 60)"
proof -
  have "rnd 1152921504606846975 =
          (if 2 powi 1024 \<le> (1152921504606846976::rat) then PosInf else Fin 1152921504606846976)"
    by (rule rnd_eval [where k = 59 and e = 7 and f = 9007199254740991 and m = 9007199254740992])
       simp_all
  then show ?thesis by (simp add: assms)
qed

lemma rnd_tiny_product:
  assumes "x = - (1 / 2 ^ 1076)"
  shows "rnd x = Fin 0"
proof -
  have "rnd (1 / 2 ^ 1076) = (if 2 powi 1024 \<le> (0::rat) then PosInf else Fin 0)"
    by (rule rnd_eval [where k = "- 1076" and e = "- 1074" and f = 0 and m = 0])
       (simp_all add: power_int_minus field_simps)
  then have "rnd (1 / 2 ^ 1076) = Fin 0" by simp
  then show ?thesis using rnd_minus [of "1 / 2 ^ 1076"] assms by simp
qed

lemma rnd_0_11:
  assumes "x = 11 / 100"
  shows "rnd x = Fin (7926335344172073 / 2 ^ 56)"
proof -
  have "rnd (11 / 100) =
          (if 2 powi 1024 \<le> (7926335344172073 / 2 ^ 56 :: rat) then PosInf
           else Fin (7926335344172073 / 2 ^ 56))"
    by (rule rnd_eval [where k = "- 4" and e = "- 56" and f = 7926335344172072
          and m = 7926335344172073])
       (simp_all add: power_int_minus field_simps)
  then show ?thesis by (simp add: assms)
qed

lemma rnd_0_04:
  assumes "x = 4 / 100"
  shows "rnd x = Fin (5764607523034235 / 2 ^ 57)"
proof -
  have "rnd (4 / 100) =
          (if 2 powi 1024 \<le> (5764607523034235 / 2 ^ 57 :: rat) then PosInf
           else Fin (5764607523034235 / 2 ^ 57))"
    by (rule rnd_eval [where k = "- 5" and e = "- 57" and f = 5764607523034234
          and m = 5764607523034235])
       (simp_all add: power_int_minus field_simps)
  then show ?thesis by (simp add: assms)
qed

lemma rnd_0_11_minus_0_04:
  assumes "x = 7926335344172073 / 2 ^ 56 - 5764607523034235 / 2 ^ 57"
  shows "rnd x = Fin (5044031582654956 / 2 ^ 56)"
proof -
  have "rnd (7926335344172073 / 2 ^ 56 - 5764607523034235 / 2 ^ 57) =
          (if 2 powi 1024 \<le> (5044031582654956 / 2 ^ 56 :: rat) then PosInf
           else Fin (5044031582654956 / 2 ^ 56))"
    by (rule rnd_eval [where k = "- 4" and e = "- 56" and f = 5044031582654955
          and m = 5044031582654956])
       (simp_all add: power_int_minus field_simps)
  then show ?thesis by (simp add: assms)
qed

lemma rnd_0_07_plus_0_04:
  assumes "x = 5044031582654956 / 2 ^ 56 + 5764607523034235 / 2 ^ 57"
  shows "rnd x = Fin (7926335344172074 / 2 ^ 56)"
proof -
  have "rnd (5044031582654956 / 2 ^ 56 + 5764607523034235 / 2 ^ 57) =
          (if 2 powi 1024 \<le> (7926335344172074 / 2 ^ 56 :: rat) then PosInf
           else Fin (7926335344172074 / 2 ^ 56))"
    by (rule rnd_eval [where k = "- 4" and e = "- 56" and f = 7926335344172073
          and m = 7926335344172074])
       (simp_all add: power_int_minus field_simps)
  then show ?thesis by (simp add: assms)
qed

lemma isDouble_one: "isDouble 1"
  by (simp add: isDouble_def rnd_one)

lemma isDouble_five_halves: "isDouble (5 / 2)"
proof -
  have "rnd (5 / 2) = (if 2 powi 1024 \<le> (5 / 2 :: rat) then PosInf else Fin (5 / 2))"
    by (rule rnd_eval [where k = 1 and e = "- 51" and f = 5629499534213120
          and m = 5629499534213120])
       (simp_all add: power_int_minus field_simps)
  then show ?thesis by (simp add: isDouble_def)
qed

subsection \<open>The clamp and the stock adjustment\<close>

lemma clampNonNeg_cases: "clampNonNeg n = Fin 0 \<or> (\<exists>r. 0 < r \<and> clampNonNeg n = Fin r)"
  by (cases n) (auto simp: clampNonNeg_def num_gt_def)

lemma num_le_zero_clampNonNeg: "num_le (Fin 0) (clampNonNeg n)"
  using clampNonNeg_cases [of n] by (auto simp: num_le_def)

lemma orZero_clampNonNeg: "orZero (Some (clampNonNeg n)) = clampNonNeg n"
  using clampNonNeg_cases [of n] by (auto simp: orZero_def truthy_def)

lemma stockNonNeg_adjustItem:
  "stockNonNeg i \<Longrightarrow> stockNonNeg (adjustItem ident du dk now i)"
  by (auto simp: adjustItem_def stockNonNeg_def stockOf_def orZero_clampNonNeg num_le_zero_clampNonNeg)

lemma i_id_adjustItem: "i_id (adjustItem ident du dk now i) = i_id i"
  by (simp add: adjustItem_def)

lemma i_trackBy_adjustItem: "i_trackBy (adjustItem ident du dk now i) = i_trackBy i"
  by (simp add: adjustItem_def)

lemma length_adjustStock: "length (adjustStock ident du dk now its) = length its"
  by (simp add: adjustStock_def)

lemma nth_adjustStock:
  "n < length its \<Longrightarrow> adjustStock ident du dk now its ! n = adjustItem ident du dk now (its ! n)"
  by (simp add: adjustStock_def)

subsection \<open>Looking an item up\<close>

lemma itemMap_Nil: "itemMap [] = Map.empty"
  by (simp add: itemMap_def)

lemma itemMap_snoc: "itemMap (its @ [i]) = (itemMap its)(i_id i \<mapsto> i)"
  by (simp add: itemMap_def)

lemma itemMap_id: "itemMap its k = Some it \<Longrightarrow> i_id it = k"
  by (induction its rule: rev_induct) (auto simp: itemMap_Nil itemMap_snoc split: if_splits)

lemma itemMap_map:
  assumes "\<And>i. i_id (f i) = i_id i"
  shows "itemMap (map f its) k = map_option f (itemMap its k)"
  by (induction its rule: rev_induct) (simp_all add: itemMap_Nil itemMap_snoc assms)

lemma itemMap_adjustStock:
  "itemMap (adjustStock a du dk now its) k = map_option (adjustItem a du dk now) (itemMap its k)"
  unfolding adjustStock_def by (rule itemMap_map) (simp add: adjustItem_def)

subsection \<open>The items after an operation\<close>

lemma items_addSale:
  "items (snd (addSale newId ts now pl st)) = items st \<or>
   (\<exists>a b c. items (snd (addSale newId ts now pl st)) = adjustStock a b c now (items st))"
  by (auto simp: addSale_def Let_def split: option.splits)

lemma items_updateSale:
  "items (snd (updateSale saleId ch now st)) = items st \<or>
   (\<exists>a b c. items (snd (updateSale saleId ch now st)) = adjustStock a b c now (items st))"
  by (auto simp: updateSale_def Let_def split: option.splits)

lemma items_deleteSale:
  "items (deleteSale saleId now st) = items st \<or>
   (\<exists>a b c. items (deleteSale saleId now st) = adjustStock a b c now (items st))"
  by (auto simp: deleteSale_def Let_def split: option.splits)

lemma items_applyOp:
  "items (applyOp op st) = items st \<or>
   (\<exists>a b c d. items (applyOp op st) = adjustStock a b c d (items st))"
proof (cases op)
  case (AdjustStock a b c d) then show ?thesis by auto
next
  case (AddSale a b c d) then show ?thesis using items_addSale [of a b c d st] by auto
next
  case (UpdateSale a b c) then show ?thesis using items_updateSale [of a b c st] by auto
next
  case (DeleteSale a b) then show ?thesis using items_deleteSale [of a b st] by auto
qed

lemma applyOp_keeps:
  assumes "n < length (items st)" and "stockNonNeg (items st ! n)"
  shows "n < length (items (applyOp op st)) \<and> stockNonNeg (items (applyOp op st) ! n)
         \<and> i_id (items (applyOp op st) ! n) = i_id (items st ! n)
         \<and> i_trackBy (items (applyOp op st) ! n) = i_trackBy (items st ! n)"
  using items_applyOp [of op st] assms
  by (auto simp: length_adjustStock nth_adjustStock stockNonNeg_adjustItem i_id_adjustItem i_trackBy_adjustItem)

lemma runOps_keeps:
  "n < length (items st) \<Longrightarrow> stockNonNeg (items st ! n) \<Longrightarrow>
   n < length (items (runOps ops st)) \<and> stockNonNeg (items (runOps ops st) ! n)
   \<and> i_id (items (runOps ops st) ! n) = i_id (items st ! n)
   \<and> i_trackBy (items (runOps ops st) ! n) = i_trackBy (items st ! n)"
proof (induction ops arbitrary: st)
  case Nil
  then show ?case by (simp add: runOps_def)
next
  case (Cons op ops)
  from applyOp_keeps [OF Cons.prems, of op]
  have a: "n < length (items (applyOp op st))" "stockNonNeg (items (applyOp op st) ! n)"
    "i_id (items (applyOp op st) ! n) = i_id (items st ! n)"
    "i_trackBy (items (applyOp op st) ! n) = i_trackBy (items st ! n)" by auto
  from Cons.IH [OF a(1) a(2)] a(3) a(4) show ?case by (simp add: runOps_def)
qed

text \<open>
  C1. Take any item of the collection, by its position, whose stock in its tracking mode is
  not negative. After every prefix of any sequence of \<open>adjustStock\<close>, \<open>addSale\<close>,
  \<open>updateSale\<close> and \<open>deleteSale\<close> calls the item is still at that position, with the
  same id and the same tracking mode, and its stock in that mode is not negative.
\<close>

theorem stock_nonneg_preserved:
  assumes "n < length (items st)" and "stockNonNeg (items st ! n)"
  shows "\<forall>k. n < length (items (runOps (take k ops) st))
           \<and> stockNonNeg (items (runOps (take k ops) st) ! n)
           \<and> i_id (items (runOps (take k ops) st) ! n) = i_id (items st ! n)
           \<and> i_trackBy (items (runOps (take k ops) st) ! n) = i_trackBy (items st ! n)"
  using runOps_keeps [OF assms] by blast

theorem stock_nonneg_preserved_witness:
  "stockNonNeg (sampleItem ''a'' Unit (Fin 10) (Fin 3)) \<and>
   (\<forall>k. stockNonNeg (items (runOps (take k
           [AddSale ''s1'' 1 2 (samplePayload ''a'' Unit (Fin 2) None),
            AdjustStock ''a'' (Some (Fin (- 5))) None 3,
            UpdateSale ''s1'' (noChanges\<lparr>c_qtyUnits := Given (Some (Fin 1))\<rparr>) 4,
            DeleteSale ''s1'' 5])
           \<lparr>items = [sampleItem ''a'' Unit (Fin 10) (Fin 3)], sales = []\<rparr>) ! 0))"
proof -
  let ?st = "\<lparr>items = [sampleItem ''a'' Unit (Fin 10) (Fin 3)], sales = []\<rparr> :: ledger"
  have a: "0 < length (items ?st)" by simp
  have b: "stockNonNeg (items ?st ! 0)" by (simp add: sample_defs mode_defs num_defs)
  from stock_nonneg_preserved [OF a b] b show ?thesis by simp
qed

subsection \<open>Rejected sales and edits\<close>

lemma not_Unit_iff: "(m \<noteq> Unit) = (m = Kg)"
  by (cases m) auto

text \<open>
  C2. When the item of the payload exists, the clamped requested quantity is positive and
  the stock of the item's mode is less than it, \<open>addSale\<close> shows the insufficient-stock
  alert and returns the state it was given: no sale is added and no item changes.
\<close>

theorem addSale_insufficient_stock_rejected:
  assumes "itemMap (items st) (p_itemId pl) = Some it"
    and "num_gt (requestedQty it pl) (Fin 0)"
    and "num_lt (stockOf it) (requestedQty it pl)"
  shows "addSale newId ts now pl st =
           (Some (InsufficientStock (stockOf it)
                    (strOr (i_unitLabel it) (if i_trackBy it = Unit then ''unit'' else ''kg''))), st)"
  using assms clampNonNeg_cases [of "orZero (p_qtyUnits pl)"] clampNonNeg_cases [of "orZero (p_qtyKg pl)"]
  by (cases "i_trackBy it")
     (auto simp: addSale_def Let_def requestedQty_def stockOf_def num_gt_def num_le_def)

theorem addSale_insufficient_stock_rejected_witness:
  "addSale ''s1'' 1 2 (samplePayload ''a'' Unit (Fin 5) None)
     \<lparr>items = [sampleItem ''a'' Unit (Fin 10) (Fin 3)], sales = []\<rparr>
   = (Some (InsufficientStock (Fin 3) ''unit''),
      \<lparr>items = [sampleItem ''a'' Unit (Fin 10) (Fin 3)], sales = []\<rparr>)"
proof -
  let ?it = "sampleItem ''a'' Unit (Fin 10) (Fin 3)"
  let ?pl = "samplePayload ''a'' Unit (Fin 5) None"
  let ?st = "\<lparr>items = [?it], sales = []\<rparr> :: ledger"
  have a: "itemMap (items ?st) (p_itemId ?pl) = Some ?it"
    by (simp add: itemMap_def sample_defs)
  have b: "num_gt (requestedQty ?it ?pl) (Fin 0)"
    by (simp add: sample_defs mode_defs num_defs)
  have c: "num_lt (stockOf ?it) (requestedQty ?it ?pl)"
    by (simp add: sample_defs mode_defs num_defs)
  have d: "stockOf ?it = Fin 3" "strOr (i_unitLabel ?it) (if i_trackBy ?it = Unit then ''unit'' else ''kg'') = ''unit''"
    by (simp_all add: sample_defs mode_defs num_defs strOr_def)
  from addSale_insufficient_stock_rejected [OF a b c, of "''s1''" 1 2] d show ?thesis by simp
qed

text \<open>
  C4. When the sale and its item exist, the clamped new quantity exceeds the clamped old
  quantity by \<open>delta > 0\<close> and the stock of the item's mode is less than \<open>delta\<close>,
  \<open>updateSale\<close> shows the alert and returns the state it was given: the sale keeps every
  field and the item keeps its stock.
\<close>

theorem updateSale_insufficient_stock_rejected:
  assumes "find (\<lambda>s. s_id s = saleId) (sales st) = Some old"
    and "itemMap (items st) (s_itemId old) = Some it"
    and "delta = num_sub (clampedQty it (mergeSale old ch)) (clampedQty it old)"
    and "num_gt delta (Fin 0)"
    and "num_lt (stockOf it) delta"
  shows "updateSale saleId ch now st =
           (Some (InsufficientIncrease (stockOf it)
                    (strOr (i_unitLabel it) (if i_trackBy it = Unit then ''unit'' else ''kg''))), st)"
proof -
  have nz: "delta \<noteq> Fin 0" using assms(4) by (auto simp: num_gt_def)
  show ?thesis
    using assms nz
    by (cases "i_trackBy it")
       (simp_all add: updateSale_def Let_def clampedQty_def saleQtyField_def stockOf_def)
qed

theorem updateSale_insufficient_stock_rejected_witness:
  "updateSale ''s1'' (noChanges\<lparr>c_qtyKg := Given (Some (Fin 4))\<rparr>) 9
     \<lparr>items = [sampleItem ''a'' Kg (Fin 10) (Fin 1)],
      sales = [sampleSale ''s1'' ''a'' Kg (Fin 2) (Fin 10) (Fin 20)]\<rparr>
   = (Some (InsufficientIncrease (Fin 1) ''kg''),
      \<lparr>items = [sampleItem ''a'' Kg (Fin 10) (Fin 1)],
       sales = [sampleSale ''s1'' ''a'' Kg (Fin 2) (Fin 10) (Fin 20)]\<rparr>)"
proof -
  let ?it = "sampleItem ''a'' Kg (Fin 10) (Fin 1)"
  let ?old = "sampleSale ''s1'' ''a'' Kg (Fin 2) (Fin 10) (Fin 20)"
  let ?ch = "noChanges\<lparr>c_qtyKg := Given (Some (Fin 4))\<rparr>"
  let ?st = "\<lparr>items = [?it], sales = [?old]\<rparr> :: ledger"
  have a: "find (\<lambda>s. s_id s = ''s1'') (sales ?st) = Some ?old"
    by (simp add: sample_defs)
  have b: "itemMap (items ?st) (s_itemId ?old) = Some ?it"
    by (simp add: itemMap_def sample_defs)
  have c: "Fin 2 = num_sub (clampedQty ?it (mergeSale ?old ?ch)) (clampedQty ?it ?old)"
    by (simp add: sample_defs mode_defs num_defs mergeSale_def spread_def)
  have d: "num_gt (Fin 2) (Fin 0)" "num_lt (stockOf ?it) (Fin 2)"
    by (simp_all add: sample_defs mode_defs num_defs)
  have e: "stockOf ?it = Fin 1" "strOr (i_unitLabel ?it) (if i_trackBy ?it = Unit then ''unit'' else ''kg'') = ''kg''"
    by (simp_all add: sample_defs mode_defs num_defs strOr_def)
  from updateSale_insufficient_stock_rejected [OF a b c d, of 9] e show ?thesis by simp
qed

subsection \<open>A sale that goes through\<close>

lemma addSale_ok:
  assumes "itemMap (items st) (p_itemId pl) = Some it"
    and "q = requestedQty it pl"
    and "num_gt q (Fin 0)"
    and "\<not> num_lt (stockOf it) q"
  shows "\<exists>sale. addSale newId ts now pl st =
           (None, \<lparr>items = adjustStock (i_id it)
                              (Some (if i_trackBy it = Unit then num_neg q else Fin 0))
                              (Some (if i_trackBy it = Unit then Fin 0 else num_neg q))
                              now (items st),
                   sales = sale # sales st\<rparr>)
         \<and> s_id sale = newId \<and> s_itemId sale = i_id it \<and> s_timestamp sale = ts
         \<and> saleQtyField it sale = Some q
         \<and> salePriceField it sale = Some (finiteOr (p_overridePrice pl) (catalogPrice it))
         \<and> s_total sale = num_mul q (finiteOr (p_overridePrice pl) (catalogPrice it))
         \<and> s_note sale = trimOrUndefined (p_note pl) \<and> s_photoDataUrl sale = None
         \<and> (if i_trackBy it = Unit then s_qtyKg sale = None \<and> s_kgPrice sale = None
              else s_qtyUnits sale = None \<and> s_unitPrice sale = None)"
proof -
  have nle: "\<not> num_le q (Fin 0)"
    using assms(3) by (cases q) (auto simp: num_gt_def num_le_def)
  show ?thesis
    using assms nle
    by (cases "i_trackBy it")
       (simp_all add: addSale_def Let_def mode_defs)
qed

lemma stockOf_adjustItem_own:
  "stockOf (adjustItem (i_id it)
              (Some (if i_trackBy it = Unit then d else Fin 0))
              (Some (if i_trackBy it = Unit then Fin 0 else d)) now it)
   = clampNonNeg (num_add (stockOf it) (orZero (Some d)))"
  by (simp add: adjustItem_def stockOf_def orZero_clampNonNeg)

lemma adjustItem_frame:
  "(adjustItem ident du dk now i)\<lparr>i_stockUnits := i_stockUnits i, i_stockKg := i_stockKg i,
                                   i_updatedAt := i_updatedAt i\<rparr> = i"
  by (simp add: adjustItem_def)

lemma adjustItem_own_fields:
  "i_updatedAt (adjustItem (i_id it) du dk now it) = now
   \<and> (if i_trackBy it = Unit
       then i_stockKg (adjustItem (i_id it) du dk now it) = i_stockKg it
       else i_stockUnits (adjustItem (i_id it) du dk now it) = i_stockUnits it)"
  by (simp add: adjustItem_def)

lemma sub_as_add:
  "0 < q \<Longrightarrow> num_add (Fin s) (orZero (Some (num_neg (Fin q)))) = num_sub (Fin s) (Fin q)"
  by (simp add: num_sub_def orZero_def truthy_def)

lemma clamp_sub_exact:
  "q \<le> s \<Longrightarrow> isDouble (s - q) \<Longrightarrow> clampNonNeg (num_sub (Fin s) (Fin q)) = Fin (s - q)"
  by (auto simp: num_sub_def isDouble_def clampNonNeg_def num_gt_def)

lemma clamp_add_back:
  "0 < q \<Longrightarrow> q \<le> s \<Longrightarrow> isDouble s \<Longrightarrow> clampNonNeg (num_add (Fin (s - q)) (Fin q)) = Fin s"
  by (auto simp: isDouble_def clampNonNeg_def num_gt_def)

text \<open>
  C5, with the arithmetic of the code. When the item of the payload exists, its stock in
  its mode is a finite number \<open>s\<close>, the clamped requested quantity \<open>q\<close> is positive and
  \<open>q \<le> s\<close>, \<open>addSale\<close> shows no alert and puts exactly one new sale at the front of the
  sales, with the fresh id, the quantity \<open>q\<close>, the resolved price \<open>p\<close> (the finite override,
  else the catalog price) as its price snapshot and the rounded product \<open>q * p\<close> as its
  total, the trimmed note and the time of the sale; the item found under the id afterwards
  is the item of before with \<open>updatedAt\<close> set to the clock and, as stock of its mode, the
  rounded difference \<open>s - q\<close>, clamped, which is never negative; items with another id
  are untouched. The
  total is the exact product, and the stock the exact difference, whenever these are
  binary64 values, as they are for whole numbers below \<open>2^53\<close>. The example of the
  specification (quantity 3, stock 3, price 10: total 30, stock 0) is the instance below.
\<close>

theorem addSale_success:
  assumes "itemMap (items st) (p_itemId pl) = Some it"
    and "requestedQty it pl = Fin q" and "0 < q"
    and "stockOf it = Fin s" and "q \<le> s"
    and "p = finiteOr (p_overridePrice pl) (catalogPrice it)"
  shows "\<exists>sale st' it'. addSale newId ts now pl st = (None, st')
           \<and> sales st' = sale # sales st
           \<and> s_id sale = newId \<and> s_itemId sale = i_id it
           \<and> saleQtyField it sale = Some (Fin q)
           \<and> salePriceField it sale = Some p
           \<and> s_total sale = num_mul (Fin q) p
           \<and> (\<forall>c. p = Fin c \<and> isDouble (q * c) \<longrightarrow> s_total sale = Fin (q * c))
           \<and> s_timestamp sale = ts
           \<and> s_note sale = trimOrUndefined (p_note pl) \<and> s_photoDataUrl sale = None
           \<and> (if i_trackBy it = Unit then s_qtyKg sale = None \<and> s_kgPrice sale = None
                else s_qtyUnits sale = None \<and> s_unitPrice sale = None)
           \<and> length (items st') = length (items st)
           \<and> (\<forall>n<length (items st). i_id (items st ! n) \<noteq> p_itemId pl \<longrightarrow> items st' ! n = items st ! n)
           \<and> itemMap (items st') (p_itemId pl) = Some it'
           \<and> it'\<lparr>i_stockUnits := i_stockUnits it, i_stockKg := i_stockKg it,
                  i_updatedAt := i_updatedAt it\<rparr> = it
           \<and> i_updatedAt it' = now
           \<and> (if i_trackBy it = Unit then i_stockKg it' = i_stockKg it
                else i_stockUnits it' = i_stockUnits it)
           \<and> stockOf it' = clampNonNeg (num_sub (Fin s) (Fin q))
           \<and> num_le (Fin 0) (stockOf it')
           \<and> (isDouble (s - q) \<longrightarrow> stockOf it' = Fin (s - q))"
proof -
  have gt: "num_gt (Fin q) (Fin 0)" using assms(3) by (simp add: num_gt_def)
  have nlt: "\<not> num_lt (stockOf it) (Fin q)" using assms(4,5) by simp
  have idk: "i_id it = p_itemId pl" using assms(1) by (rule itemMap_id)
  let ?du = "Some (if i_trackBy it = Unit then num_neg (Fin q) else Fin 0)"
  let ?dk = "Some (if i_trackBy it = Unit then Fin 0 else num_neg (Fin q))"
  let ?its = "adjustStock (i_id it) ?du ?dk now (items st)"
  from addSale_ok [OF assms(1) assms(2) [symmetric] gt nlt, of newId ts now]
  obtain sale where s: "addSale newId ts now pl st = (None, \<lparr>items = ?its, sales = sale # sales st\<rparr>)"
    "s_id sale = newId" "s_itemId sale = i_id it" "saleQtyField it sale = Some (Fin q)"
    "salePriceField it sale = Some p" "s_total sale = num_mul (Fin q) p"
    "s_timestamp sale = ts" "s_note sale = trimOrUndefined (p_note pl)" "s_photoDataUrl sale = None"
    "if i_trackBy it = Unit then s_qtyKg sale = None \<and> s_kgPrice sale = None
     else s_qtyUnits sale = None \<and> s_unitPrice sale = None"
    using assms(6) by auto
  have ex: "\<forall>c. p = Fin c \<and> isDouble (q * c) \<longrightarrow> s_total sale = Fin (q * c)"
    using s(6) by (auto simp: isDouble_def)
  have m: "itemMap ?its (p_itemId pl) = Some (adjustItem (i_id it) ?du ?dk now it)"
    by (simp add: itemMap_adjustStock assms(1))
  have st: "stockOf (adjustItem (i_id it) ?du ?dk now it) = clampNonNeg (num_sub (Fin s) (Fin q))"
    using stockOf_adjustItem_own [of it "num_neg (Fin q)" now] sub_as_add [OF assms(3), of s]
    by (simp add: assms(4))
  have nn: "num_le (Fin 0) (clampNonNeg (num_sub (Fin s) (Fin q)))"
    by (rule num_le_zero_clampNonNeg)
  have exs: "isDouble (s - q) \<longrightarrow> clampNonNeg (num_sub (Fin s) (Fin q)) = Fin (s - q)"
    using clamp_sub_exact [OF assms(5)] by simp
  have oth: "\<forall>n<length (items st). i_id (items st ! n) \<noteq> p_itemId pl \<longrightarrow> ?its ! n = items st ! n"
    by (simp add: nth_adjustStock adjustItem_def idk)
  define it1 where "it1 = adjustItem (i_id it) ?du ?dk now it"
  define st' where "st' = \<lparr>items = ?its, sales = sale # sales st\<rparr>"
  note own = adjustItem_own_fields [of it ?du ?dk now]
  have c1: "addSale newId ts now pl st = (None, st')"
    using s(1) by (simp add: st'_def)
  have c2: "sales st' = sale # sales st"
    by (simp add: st'_def)
  have c3: "length (items st') = length (items st)"
    by (simp add: st'_def length_adjustStock)
  have c4: "\<forall>n<length (items st). i_id (items st ! n) \<noteq> p_itemId pl \<longrightarrow> items st' ! n = items st ! n"
    using oth by (simp add: st'_def)
  have c5: "itemMap (items st') (p_itemId pl) = Some it1"
    using m by (simp add: st'_def it1_def)
  have c6: "it1\<lparr>i_stockUnits := i_stockUnits it, i_stockKg := i_stockKg it,
                 i_updatedAt := i_updatedAt it\<rparr> = it"
    unfolding it1_def by (rule adjustItem_frame)
  have c7: "i_updatedAt it1 = now"
    unfolding it1_def by (rule own [THEN conjunct1])
  have c8: "if i_trackBy it = Unit then i_stockKg it1 = i_stockKg it
            else i_stockUnits it1 = i_stockUnits it"
    unfolding it1_def by (rule own [THEN conjunct2])
  have c9: "stockOf it1 = clampNonNeg (num_sub (Fin s) (Fin q))"
    unfolding it1_def by (rule st)
  have c10: "num_le (Fin 0) (stockOf it1)"
    unfolding c9 by (rule nn)
  have c11: "isDouble (s - q) \<longrightarrow> stockOf it1 = Fin (s - q)"
    unfolding c9 by (rule exs)
  from c1 c2 s(2,3,4,5,6) ex s(7,8,9,10) c3 c4 c5 c6 c7 c8 c9 c10 c11
  show ?thesis
    by (intro exI [of _ sale] exI [of _ st'] exI [of _ it1] conjI) assumption+
qed

theorem addSale_success_witness:
  "\<exists>sale st' it'.
     addSale ''s1'' 1 2 (samplePayload ''a'' Unit (Fin 3) None)
       \<lparr>items = [sampleItem ''a'' Unit (Fin 10) (Fin 3)], sales = []\<rparr> = (None, st')
     \<and> sales st' = [sale]
     \<and> s_id sale = ''s1''
     \<and> s_qtyUnits sale = Some (Fin 3)
     \<and> s_unitPrice sale = Some (Fin 10)
     \<and> s_total sale = Fin 30
     \<and> itemMap (items st') ''a'' = Some it'
     \<and> stockOf it' = Fin 0"
proof -
  let ?it = "sampleItem ''a'' Unit (Fin 10) (Fin 3)"
  let ?pl = "samplePayload ''a'' Unit (Fin 3) None"
  let ?st = "\<lparr>items = [?it], sales = []\<rparr> :: ledger"
  have a: "itemMap (items ?st) (p_itemId ?pl) = Some ?it"
    by (simp add: itemMap_def sample_defs)
  have b: "requestedQty ?it ?pl = Fin 3" "stockOf ?it = Fin 3"
    by (simp_all add: sample_defs mode_defs num_defs)
  have c: "(0::rat) < 3" "(3::rat) \<le> 3" by simp_all
  have d: "Fin 10 = finiteOr (p_overridePrice ?pl) (catalogPrice ?it)"
    by (simp add: sample_defs mode_defs num_defs)
  have e: "i_trackBy ?it = Unit" "p_itemId ?pl = ''a''" "sales ?st = []"
    by (simp_all add: sample_defs)
  have f: "isDouble (3 * 10)" "isDouble (3 - 3)"
    by (simp_all add: isDouble_numeral isDouble_zero)
  from addSale_success [OF a b(1) c(1) b(2) c(2) d, of "''s1''" 1 2]
  obtain sale st' it' where r: "addSale ''s1'' 1 2 ?pl ?st = (None, st')"
      "sales st' = sale # sales ?st" "s_id sale = ''s1''"
      "saleQtyField ?it sale = Some (Fin 3)" "salePriceField ?it sale = Some (Fin 10)"
      "\<forall>c. Fin 10 = Fin c \<and> isDouble (3 * c) \<longrightarrow> s_total sale = Fin (3 * c)"
      "itemMap (items st') (p_itemId ?pl) = Some it'"
      "isDouble (3 - 3) \<longrightarrow> stockOf it' = Fin (3 - 3)"
    by blast
  have "s_total sale = Fin 30" using r(6) f(1) by simp
  moreover have "stockOf it' = Fin 0" using r(8) f(2) by simp
  moreover have "s_qtyUnits sale = Some (Fin 3)" "s_unitPrice sale = Some (Fin 10)"
    using r(4,5) by (simp_all add: saleQtyField_def salePriceField_def e(1))
  ultimately show ?thesis using r(1,2,3,7) e(2,3) by auto
qed

text \<open>
  The claim as written fails in two ways. An infinite stock passes the check
  (\<open>Infinity < 3\<close> is false) and \<open>clampNonNeg(Infinity - 3)\<close> is \<open>0\<close>. And the
  difference is rounded: with a stock of \<open>2^60\<close>, selling one unit leaves \<open>2^60\<close>.
\<close>

theorem addSale_success_counterexample:
  "addSale ''s1'' 1 2 (samplePayload ''a'' Kg (Fin 3) None)
     \<lparr>items = [sampleItem ''a'' Kg (Fin 10) PosInf], sales = []\<rparr>
   = (None, \<lparr>items = [(sampleItem ''a'' Kg (Fin 10) (Fin 0))\<lparr>i_updatedAt := 2\<rparr>],
             sales = [(sampleSale ''s1'' ''a'' Kg (Fin 3) (Fin 10) (Fin 30))\<lparr>s_timestamp := 1\<rparr>]\<rparr>)
   \<and> stockOf (sampleItem ''a'' Kg (Fin 10) PosInf) = PosInf
   \<and> \<not> num_lt (stockOf (sampleItem ''a'' Kg (Fin 10) PosInf)) (Fin 3)
   \<and> stockOf ((sampleItem ''a'' Kg (Fin 10) (Fin 0))\<lparr>i_updatedAt := 2\<rparr>) = Fin 0
   \<and> num_sub (stockOf (sampleItem ''a'' Kg (Fin 10) PosInf)) (Fin 3) \<noteq> Fin 0
   \<and> addSale ''s1'' 1 2 (samplePayload ''a'' Unit (Fin 1) None)
     \<lparr>items = [sampleItem ''a'' Unit (Fin 10) (Fin (2 ^ 60))], sales = []\<rparr>
   = (None, \<lparr>items = [(sampleItem ''a'' Unit (Fin 10) (Fin (2 ^ 60)))\<lparr>i_updatedAt := 2\<rparr>],
             sales = [(sampleSale ''s1'' ''a'' Unit (Fin 1) (Fin 10) (Fin 10))\<lparr>s_timestamp := 1\<rparr>]\<rparr>)"
  by (simp add: addSale_def adjustStock_def adjustItem_def itemMap_def trimOrUndefined_def Let_def
      sample_defs mode_defs num_defs rnd_below_2_60)

text \<open>
  C10, with the arithmetic of the code. When the override price is finite and negative,
  and the quantity and stock checks pass, \<open>addSale\<close> is not rejected: the new sale carries
  the negative price as its price snapshot, and its total, the rounded product of quantity
  and price, is never positive; it is negative whenever the exact product has a magnitude
  of at least \<open>2^-1074\<close>, the least positive binary64 value.
\<close>

theorem addSale_negative_price:
  assumes "itemMap (items st) (p_itemId pl) = Some it"
    and "p_overridePrice pl = Some (Fin r)" and "r < 0"
    and "q = requestedQty it pl"
    and "num_gt q (Fin 0)"
    and "\<not> num_lt (stockOf it) q"
  shows "\<exists>sale st'. addSale newId ts now pl st = (None, st')
           \<and> sales st' = sale # sales st
           \<and> saleQtyField it sale = Some q
           \<and> salePriceField it sale = Some (Fin r)
           \<and> s_total sale = num_mul q (Fin r)
           \<and> num_le (s_total sale) (Fin 0)
           \<and> (\<forall>x. q = Fin x \<and> 2 powi (- 1074) \<le> x * (- r) \<longrightarrow> num_lt (s_total sale) (Fin 0))"
proof -
  have p: "finiteOr (p_overridePrice pl) (catalogPrice it) = Fin r"
    by (simp add: finiteOr_def assms(2))
  obtain x where x: "q = Fin x" "0 < x"
    using assms(4,5) clampNonNeg_cases [of "orZero (if i_trackBy it = Unit then p_qtyUnits pl else p_qtyKg pl)"]
    by (auto simp: requestedQty_def num_gt_def)
  have "x * r \<le> 0" using x(2) assms(3) by (simp add: mult_le_0_iff)
  from rnd_nonpos [OF this]
  have le: "num_le (num_mul q (Fin r)) (Fin 0)"
    by (auto simp: x(1) num_le_def)
  have lt: "\<forall>y. q = Fin y \<and> 2 powi (- 1074) \<le> y * (- r) \<longrightarrow> num_lt (num_mul q (Fin r)) (Fin 0)"
  proof (intro allI impI)
    fix y assume "q = Fin y \<and> 2 powi (- 1074) \<le> y * (- r)"
    then have "y = x" "x * r \<le> - (2 powi (- 1074))" using x(1) by auto
    from rnd_neg_strict [OF this(2)]
    show "num_lt (num_mul q (Fin r)) (Fin 0)" by (auto simp: x(1))
  qed
  from addSale_ok [OF assms(1) assms(4) assms(5) assms(6), of newId ts now] p le lt
  show ?thesis by auto
qed

theorem addSale_negative_price_witness:
  "\<exists>sale st'.
     addSale ''s1'' 1 2 (samplePayload ''a'' Unit (Fin 2) (Some (Fin (- 5))))
       \<lparr>items = [sampleItem ''a'' Unit (Fin 10) (Fin 3)], sales = []\<rparr> = (None, st')
     \<and> sales st' = [sale]
     \<and> s_qtyUnits sale = Some (Fin 2)
     \<and> s_unitPrice sale = Some (Fin (- 5))
     \<and> s_total sale = Fin (- 10)
     \<and> num_lt (s_total sale) (Fin 0)"
proof -
  let ?it = "sampleItem ''a'' Unit (Fin 10) (Fin 3)"
  let ?pl = "samplePayload ''a'' Unit (Fin 2) (Some (Fin (- 5)))"
  let ?st = "\<lparr>items = [?it], sales = []\<rparr> :: ledger"
  have a: "itemMap (items ?st) (p_itemId ?pl) = Some ?it"
    by (simp add: itemMap_def sample_defs)
  have b: "p_overridePrice ?pl = Some (Fin (- 5))" "(- 5 :: rat) < 0"
    by (simp_all add: sample_defs)
  have c: "Fin 2 = requestedQty ?it ?pl"
    by (simp add: sample_defs mode_defs num_defs)
  have d: "num_gt (Fin 2) (Fin 0)" "\<not> num_lt (stockOf ?it) (Fin 2)"
    by (simp_all add: sample_defs mode_defs num_defs)
  have e: "i_trackBy ?it = Unit" "sales ?st = []" by (simp_all add: sample_defs)
  have f: "(2::rat) powi (- 1074) \<le> 2 * (- (- 5))"
  proof -
    have "(2::rat) powi (- 1074) \<le> 2 powi 0" by (rule power_int_increasing) simp_all
    then show ?thesis by simp
  qed
  from addSale_negative_price [OF a b c d, of "''s1''" 1 2]
  obtain sale st' where r: "addSale ''s1'' 1 2 ?pl ?st = (None, st')"
      "sales st' = sale # sales ?st"
      "saleQtyField ?it sale = Some (Fin 2)" "salePriceField ?it sale = Some (Fin (- 5))"
      "s_total sale = num_mul (Fin 2) (Fin (- 5))"
      "\<forall>x. Fin 2 = Fin x \<and> 2 powi (- 1074) \<le> x * (- (- 5)) \<longrightarrow> num_lt (s_total sale) (Fin 0)"
    by blast
  have "s_total sale = Fin (- 10)" using r(5) by (simp add: rnd_neg_numeral)
  moreover have "num_lt (s_total sale) (Fin 0)" using r(6) f by blast
  moreover have "s_qtyUnits sale = Some (Fin 2)" "s_unitPrice sale = Some (Fin (- 5))"
    using r(3,4) by (simp_all add: saleQtyField_def salePriceField_def e(1))
  ultimately show ?thesis using r(1,2) e(2) by auto
qed

text \<open>
  The total is not negative for every negative price: the product of the least positive
  quantity \<open>2^-1074\<close> and the price \<open>-1/4\<close> rounds to zero, and zero is not less than
  zero.
\<close>

theorem addSale_negative_price_counterexample:
  "fst (addSale ''s1'' 1 2 (samplePayload ''a'' Kg (Fin (1 / 2 ^ 1074)) (Some (Fin (- (1 / 4)))))
          \<lparr>items = [sampleItem ''a'' Kg (Fin 10) (Fin 1)], sales = []\<rparr>) = None
   \<and> map s_total (sales (snd (addSale ''s1'' 1 2
          (samplePayload ''a'' Kg (Fin (1 / 2 ^ 1074)) (Some (Fin (- (1 / 4)))))
          \<lparr>items = [sampleItem ''a'' Kg (Fin 10) (Fin 1)], sales = []\<rparr>))) = [Fin 0]
   \<and> map s_kgPrice (sales (snd (addSale ''s1'' 1 2
          (samplePayload ''a'' Kg (Fin (1 / 2 ^ 1074)) (Some (Fin (- (1 / 4)))))
          \<lparr>items = [sampleItem ''a'' Kg (Fin 10) (Fin 1)], sales = []\<rparr>))) = [Some (Fin (- (1 / 4)))]
   \<and> \<not> num_lt (Fin 0) (Fin 0)"
  by (simp add: addSale_def itemMap_def trimOrUndefined_def Let_def
      sample_defs mode_defs num_defs rnd_tiny_product)

subsection \<open>Deleting the sale just made\<close>

lemma deleteSale_found:
  assumes "find (\<lambda>x. s_id x = saleId) (sales st) = Some s"
    and "itemMap (items st) (s_itemId s) = Some it"
    and "truthyOpt (saleQtyField it s)"
  shows "deleteSale saleId now st =
           \<lparr>items = adjustStock (i_id it)
                      (if i_trackBy it = Unit then s_qtyUnits s else Some (Fin 0))
                      (if i_trackBy it = Unit then Some (Fin 0) else s_qtyKg s)
                      now (items st),
            sales = filter (\<lambda>x. s_id x \<noteq> saleId) (sales st)\<rparr>"
  using assms
  by (cases "i_trackBy it") (simp_all add: deleteSale_def Let_def saleQtyField_def)

text \<open>
  C6, with the arithmetic of the code. When \<open>addSale\<close> goes through on an item whose
  stock \<open>s\<close> in its mode is finite, deleting the new sale right away removes every sale
  with the fresh id and leaves the other sales and the items with another id as they were;
  the item found under the id is the item of before with \<open>updatedAt\<close> set to the clock and,
  as stock of its mode, the rounded difference \<open>s - q\<close>, clamped, plus \<open>q\<close>, rounded and
  clamped. That is the stock of before the sale whenever \<open>s\<close> and \<open>s - q\<close> are binary64 values, as
  they are for whole numbers below \<open>2^53\<close>.
\<close>

theorem addSale_deleteSale_roundtrip:
  assumes "itemMap (items st) (p_itemId pl) = Some it"
    and "requestedQty it pl = Fin q" and "0 < q"
    and "stockOf it = Fin s" and "q \<le> s"
    and "st1 = snd (addSale newId ts now pl st)"
    and "st2 = deleteSale newId now' st1"
  shows "fst (addSale newId ts now pl st) = None
         \<and> (\<exists>sale. sales st1 = sale # sales st \<and> s_id sale = newId)
         \<and> sales st2 = filter (\<lambda>x. s_id x \<noteq> newId) (sales st)
         \<and> (\<forall>x \<in> set (sales st2). s_id x \<noteq> newId)
         \<and> length (items st2) = length (items st)
         \<and> (\<forall>n<length (items st). i_id (items st ! n) \<noteq> p_itemId pl \<longrightarrow> items st2 ! n = items st ! n)
         \<and> (\<exists>it2. itemMap (items st2) (p_itemId pl) = Some it2
                \<and> it2\<lparr>i_stockUnits := i_stockUnits it, i_stockKg := i_stockKg it,
                       i_updatedAt := i_updatedAt it\<rparr> = it
                \<and> i_updatedAt it2 = now'
                \<and> (if i_trackBy it = Unit then i_stockKg it2 = i_stockKg it
                     else i_stockUnits it2 = i_stockUnits it)
                \<and> stockOf it2 = clampNonNeg (num_add (clampNonNeg (num_sub (Fin s) (Fin q))) (Fin q))
                \<and> (isDouble s \<and> isDouble (s - q) \<longrightarrow> stockOf it2 = stockOf it))"
proof -
  have gt: "num_gt (Fin q) (Fin 0)" using assms(3) by (simp add: num_gt_def)
  have nlt: "\<not> num_lt (stockOf it) (Fin q)" using assms(4,5) by simp
  have idk: "i_id it = p_itemId pl" using assms(1) by (rule itemMap_id)
  let ?du = "Some (if i_trackBy it = Unit then num_neg (Fin q) else Fin 0)"
  let ?dk = "Some (if i_trackBy it = Unit then Fin 0 else num_neg (Fin q))"
  let ?its = "adjustStock (i_id it) ?du ?dk now (items st)"
  let ?it1 = "adjustItem (i_id it) ?du ?dk now it"
  from addSale_ok [OF assms(1) assms(2) [symmetric] gt nlt, of newId ts now]
  obtain sale where s: "addSale newId ts now pl st = (None, \<lparr>items = ?its, sales = sale # sales st\<rparr>)"
    "s_id sale = newId" "s_itemId sale = i_id it" "saleQtyField it sale = Some (Fin q)"
    by auto
  have st1: "st1 = \<lparr>items = ?its, sales = sale # sales st\<rparr>"
    using s(1) assms(6) by simp
  have f: "find (\<lambda>x. s_id x = newId) (sales st1) = Some sale"
    by (simp add: st1 s(2))
  have m: "itemMap (items st1) (s_itemId sale) = Some ?it1"
    by (simp add: st1 s(3) itemMap_adjustStock assms(1) idk)
  have tb: "i_trackBy ?it1 = i_trackBy it" "i_id ?it1 = i_id it"
    by (simp_all add: i_trackBy_adjustItem i_id_adjustItem)
  have qf: "saleQtyField ?it1 sale = Some (Fin q)"
    using s(4) by (simp add: saleQtyField_def tb)
  have tr: "truthyOpt (saleQtyField ?it1 sale)"
    using assms(3) by (simp add: qf truthyOpt_def truthy_def)
  have q2: "(if i_trackBy it = Unit then s_qtyUnits sale else Some (Fin 0))
              = Some (if i_trackBy it = Unit then Fin q else Fin 0)"
       "(if i_trackBy it = Unit then Some (Fin 0) else s_qtyKg sale)
              = Some (if i_trackBy it = Unit then Fin 0 else Fin q)"
    using s(4) by (auto simp: saleQtyField_def)
  let ?eu = "Some (if i_trackBy it = Unit then Fin q else Fin 0)"
  let ?ek = "Some (if i_trackBy it = Unit then Fin 0 else Fin q)"
  have st2: "st2 = \<lparr>items = adjustStock (i_id it) ?eu ?ek now' ?its,
                    sales = filter (\<lambda>x. s_id x \<noteq> newId) (sales st)\<rparr>"
    using deleteSale_found [OF f m tr, of now'] assms(7)
    by (simp add: tb q2 st1 s(2))
  let ?it2 = "adjustItem (i_id it) ?eu ?ek now' ?it1"
  let ?c1 = "clampNonNeg (num_sub (Fin s) (Fin q))"
  have m2: "itemMap (items st2) (p_itemId pl) = Some ?it2"
    by (simp add: st2 itemMap_adjustStock assms(1))
  have s1: "stockOf ?it1 = ?c1"
    using stockOf_adjustItem_own [of it "num_neg (Fin q)" now] sub_as_add [OF assms(3), of s]
    by (simp add: assms(4))
  have oq: "orZero (Some (Fin q)) = Fin q"
    using assms(3) by (simp add: orZero_def truthy_def)
  have s2: "stockOf ?it2 = clampNonNeg (num_add ?c1 (Fin q))"
    using stockOf_adjustItem_own [of ?it1 "Fin q" now'] by (simp add: tb s1 oq)
  have ex: "isDouble s \<and> isDouble (s - q) \<longrightarrow> clampNonNeg (num_add ?c1 (Fin q)) = Fin s"
    using clamp_sub_exact [OF assms(5)] clamp_add_back [OF assms(3,5)] by simp
  have l: "length (items st2) = length (items st)"
    by (simp add: st2 length_adjustStock)
  have t2: "i_trackBy ?it2 = i_trackBy it"
    by (simp add: i_trackBy_adjustItem)
  define it2 where "it2 = ?it2"
  have d1: "itemMap (items st2) (p_itemId pl) = Some it2"
    using m2 by (simp add: it2_def)
  have d2: "it2\<lparr>i_stockUnits := i_stockUnits it, i_stockKg := i_stockKg it,
                 i_updatedAt := i_updatedAt it\<rparr> = it"
    by (simp add: it2_def adjustItem_def)
  have d3: "i_updatedAt it2 = now'"
    by (simp add: it2_def adjustItem_def)
  have d4: "if i_trackBy it = Unit then i_stockKg it2 = i_stockKg it
            else i_stockUnits it2 = i_stockUnits it"
    by (simp add: it2_def adjustItem_def)
  have d5: "stockOf it2 = clampNonNeg (num_add (clampNonNeg (num_sub (Fin s) (Fin q))) (Fin q))"
    unfolding it2_def by (rule s2)
  have d6: "isDouble s \<and> isDouble (s - q) \<longrightarrow> stockOf it2 = stockOf it"
    unfolding d5 assms(4) by (rule ex)
  have oth: "\<forall>n<length (items st). i_id (items st ! n) \<noteq> p_itemId pl \<longrightarrow> items st2 ! n = items st ! n"
    by (simp add: st2 nth_adjustStock length_adjustStock adjustItem_def idk)
  from d1 d2 d3 d4 d5 d6
  have E: "\<exists>it2. itemMap (items st2) (p_itemId pl) = Some it2
                \<and> it2\<lparr>i_stockUnits := i_stockUnits it, i_stockKg := i_stockKg it,
                       i_updatedAt := i_updatedAt it\<rparr> = it
                \<and> i_updatedAt it2 = now'
                \<and> (if i_trackBy it = Unit then i_stockKg it2 = i_stockKg it
                     else i_stockUnits it2 = i_stockUnits it)
                \<and> stockOf it2 = clampNonNeg (num_add (clampNonNeg (num_sub (Fin s) (Fin q))) (Fin q))
                \<and> (isDouble s \<and> isDouble (s - q) \<longrightarrow> stockOf it2 = stockOf it)"
    by (intro exI [of _ it2] conjI) assumption+
  have f1: "fst (addSale newId ts now pl st) = None"
    using s(1) by simp
  have f2: "\<exists>sale. sales st1 = sale # sales st \<and> s_id sale = newId"
    using st1 s(2) by simp
  have f3: "sales st2 = filter (\<lambda>x. s_id x \<noteq> newId) (sales st)"
    by (simp add: st2)
  have f4: "\<forall>x \<in> set (sales st2). s_id x \<noteq> newId"
    by (simp add: f3)
  from f1 f2 f3 f4 l oth E
  show ?thesis
    by (intro conjI) assumption+
qed

theorem addSale_deleteSale_roundtrip_witness:
  "fst (addSale ''s1'' 1 2 (samplePayload ''a'' Kg (Fin (3 / 2)) None)
          \<lparr>items = [sampleItem ''a'' Kg (Fin 10) (Fin (5 / 2))], sales = []\<rparr>) = None
   \<and> sales (deleteSale ''s1'' 3
        (snd (addSale ''s1'' 1 2 (samplePayload ''a'' Kg (Fin (3 / 2)) None)
               \<lparr>items = [sampleItem ''a'' Kg (Fin 10) (Fin (5 / 2))], sales = []\<rparr>))) = []
   \<and> (\<exists>it2. itemMap (items (deleteSale ''s1'' 3
        (snd (addSale ''s1'' 1 2 (samplePayload ''a'' Kg (Fin (3 / 2)) None)
               \<lparr>items = [sampleItem ''a'' Kg (Fin 10) (Fin (5 / 2))], sales = []\<rparr>)))) ''a'' = Some it2
         \<and> stockOf it2 = Fin (5 / 2))"
proof -
  let ?it = "sampleItem ''a'' Kg (Fin 10) (Fin (5 / 2))"
  let ?pl = "samplePayload ''a'' Kg (Fin (3 / 2)) None"
  let ?st = "\<lparr>items = [?it], sales = []\<rparr> :: ledger"
  have a: "itemMap (items ?st) (p_itemId ?pl) = Some ?it"
    by (simp add: itemMap_def sample_defs)
  have b: "requestedQty ?it ?pl = Fin (3 / 2)" "stockOf ?it = Fin (5 / 2)"
    by (simp_all add: sample_defs mode_defs num_defs)
  have c: "(0::rat) < 3 / 2" "(3 / 2 :: rat) \<le> 5 / 2" by simp_all
  have d: "isDouble (5 / 2) \<and> isDouble (5 / 2 - 3 / 2)"
    by (simp add: isDouble_five_halves isDouble_one)
  have e: "p_itemId ?pl = ''a''" "sales ?st = []" by (simp_all add: sample_defs)
  from addSale_deleteSale_roundtrip [OF a b(1) c(1) b(2) c(2) refl refl, of "''s1''" 1 2 3] d
  show ?thesis by (simp add: e b(2)) blast
qed

text \<open>
  The round trip does not restore every stock. With an infinite stock the sale resets the
  stock to \<open>0\<close> and the deletion adds the quantity back, leaving 3. With a stock of
  \<open>0.11\<close> and a sale of \<open>0.04\<close> (the binary64 values of these literals), the
  difference is rounded, and so is the sum: the stock ends one unit in the last place above
  where it started.
\<close>

theorem addSale_deleteSale_roundtrip_counterexample:
  "addSale ''s1'' 1 2 (samplePayload ''a'' Unit (Fin 3) None)
     \<lparr>items = [sampleItem ''a'' Unit (Fin 10) PosInf], sales = []\<rparr>
   = (None, \<lparr>items = [(sampleItem ''a'' Unit (Fin 10) (Fin 0))\<lparr>i_updatedAt := 2\<rparr>],
             sales = [(sampleSale ''s1'' ''a'' Unit (Fin 3) (Fin 10) (Fin 30))\<lparr>s_timestamp := 1\<rparr>]\<rparr>)
   \<and> deleteSale ''s1'' 3
        \<lparr>items = [(sampleItem ''a'' Unit (Fin 10) (Fin 0))\<lparr>i_updatedAt := 2\<rparr>],
         sales = [(sampleSale ''s1'' ''a'' Unit (Fin 3) (Fin 10) (Fin 30))\<lparr>s_timestamp := 1\<rparr>]\<rparr>
   = \<lparr>items = [(sampleItem ''a'' Unit (Fin 10) (Fin 3))\<lparr>i_updatedAt := 3\<rparr>], sales = []\<rparr>
   \<and> stockOf ((sampleItem ''a'' Unit (Fin 10) (Fin 3))\<lparr>i_updatedAt := 3\<rparr>) = Fin 3
   \<and> stockOf (sampleItem ''a'' Unit (Fin 10) PosInf) = PosInf
   \<and> fst (addSale ''s1'' 1 2 (samplePayload ''a'' Kg (rnd (4 / 100)) None)
          \<lparr>items = [sampleItem ''a'' Kg (Fin 10) (rnd (11 / 100))], sales = []\<rparr>) = None
   \<and> map stockOf (items (deleteSale ''s1'' 3
        (snd (addSale ''s1'' 1 2 (samplePayload ''a'' Kg (rnd (4 / 100)) None)
               \<lparr>items = [sampleItem ''a'' Kg (Fin 10) (rnd (11 / 100))], sales = []\<rparr>))))
      = [Fin (7926335344172074 / 2 ^ 56)]
   \<and> stockOf (sampleItem ''a'' Kg (Fin 10) (rnd (11 / 100))) = Fin (7926335344172073 / 2 ^ 56)"
  by (simp add: addSale_def deleteSale_def adjustStock_def adjustItem_def itemMap_def
      trimOrUndefined_def Let_def sample_defs mode_defs num_defs
      rnd_0_11 rnd_0_04 rnd_0_11_minus_0_04 rnd_0_07_plus_0_04)

subsection \<open>Editing a sale without giving a price\<close>

lemma updateSale_ok:
  assumes "find (\<lambda>s. s_id s = saleId) (sales st) = Some old"
    and "itemMap (items st) (s_itemId old) = Some it"
    and "delta = num_sub (clampedQty it (mergeSale old ch)) (clampedQty it old)"
    and "\<not> (num_gt delta (Fin 0) \<and> num_lt (stockOf it) delta)"
  shows "updateSale saleId ch now st =
           (None,
            \<lparr>items = (if delta \<noteq> Fin 0
                       then adjustStock (i_id it)
                              (Some (if i_trackBy it = Unit then num_neg delta else Fin 0))
                              (Some (if i_trackBy it = Unit then Fin 0 else num_neg delta))
                              now (items st)
                       else items st),
             sales = map (\<lambda>s. if s_id s = saleId
                                then (mergeSale old ch)
                                       \<lparr>s_total := num_mul (finiteOr (salePriceField it (mergeSale old ch))
                                                              (catalogPrice it))
                                                           (clampedQty it (mergeSale old ch))\<rparr>
                                else s) (sales st)\<rparr>)"
  using assms
  by (cases "i_trackBy it") (auto simp: updateSale_def Let_def mode_defs)

lemma salePriceField_merge_omitted:
  "changesPriceField it ch = Omitted \<Longrightarrow> salePriceField it (mergeSale old ch) = salePriceField it old"
  by (auto simp: changesPriceField_def salePriceField_def mergeSale_def spread_def split: if_splits)

text \<open>
  C3, with the price the code resolves. When \<open>changes\<close> leaves out the price key of the
  item's mode and the edit is not rejected, the edited sale keeps the price field it had, and \<open>total\<close> is
  recomputed from that previous snapshot whenever it is finite; the item's current catalog
  price is used, for \<open>total\<close> only, when the sale had no finite price.
\<close>

theorem updateSale_price_omitted:
  assumes "find (\<lambda>s. s_id s = saleId) (sales st) = Some old"
    and "itemMap (items st) (s_itemId old) = Some it"
    and "changesPriceField it ch = Omitted"
    and "newQty = clampedQty it (mergeSale old ch)"
    and "delta = num_sub newQty (clampedQty it old)"
    and "\<not> (num_gt delta (Fin 0) \<and> num_lt (stockOf it) delta)"
  shows "\<exists>next st'. updateSale saleId ch now st = (None, st')
           \<and> sales st' = map (\<lambda>s. if s_id s = saleId then next else s) (sales st)
           \<and> salePriceField it next = salePriceField it old
           \<and> s_total next = num_mul (finiteOr (salePriceField it old) (catalogPrice it)) newQty
           \<and> (\<forall>r. salePriceField it old = Some (Fin r) \<longrightarrow> s_total next = num_mul (Fin r) newQty)
           \<and> ((\<forall>n. salePriceField it old = Some n \<longrightarrow> \<not> isFinite n)
                \<longrightarrow> s_total next = num_mul (catalogPrice it) newQty)"
proof -
  let ?next = "(mergeSale old ch)\<lparr>s_total := num_mul (finiteOr (salePriceField it (mergeSale old ch))
                                          (catalogPrice it)) (clampedQty it (mergeSale old ch))\<rparr>"
  have p: "salePriceField it ?next = salePriceField it old"
    using salePriceField_merge_omitted [OF assms(3), of old]
    by (auto simp: salePriceField_def split: if_splits)
  have t: "s_total ?next = num_mul (finiteOr (salePriceField it old) (catalogPrice it)) newQty"
    using salePriceField_merge_omitted [OF assms(3), of old] by (simp add: assms(4))
  have f: "(\<forall>n. salePriceField it old = Some n \<longrightarrow> \<not> isFinite n)
             \<Longrightarrow> finiteOr (salePriceField it old) (catalogPrice it) = catalogPrice it"
    by (cases "salePriceField it old") (auto simp: finiteOr_def)
  have g: "\<And>r. salePriceField it old = Some (Fin r) \<Longrightarrow> finiteOr (salePriceField it old) (catalogPrice it) = Fin r"
    by (simp add: finiteOr_def)
  from updateSale_ok [OF assms(1,2) assms(5) [unfolded assms(4)], of now] assms(6)
  have u: "updateSale saleId ch now st =
             (None, \<lparr>items = (if delta \<noteq> Fin 0
                       then adjustStock (i_id it)
                              (Some (if i_trackBy it = Unit then num_neg delta else Fin 0))
                              (Some (if i_trackBy it = Unit then Fin 0 else num_neg delta))
                              now (items st)
                       else items st),
                     sales = map (\<lambda>s. if s_id s = saleId then ?next else s) (sales st)\<rparr>)"
    by simp
  have "updateSale saleId ch now st =
          (None, \<lparr>items = (if delta \<noteq> Fin 0
                       then adjustStock (i_id it)
                              (Some (if i_trackBy it = Unit then num_neg delta else Fin 0))
                              (Some (if i_trackBy it = Unit then Fin 0 else num_neg delta))
                              now (items st)
                       else items st),
                  sales = map (\<lambda>s. if s_id s = saleId then ?next else s) (sales st)\<rparr>)
        \<and> salePriceField it ?next = salePriceField it old
        \<and> s_total ?next = num_mul (finiteOr (salePriceField it old) (catalogPrice it)) newQty
        \<and> (\<forall>r. salePriceField it old = Some (Fin r) \<longrightarrow> s_total ?next = num_mul (Fin r) newQty)
        \<and> ((\<forall>n. salePriceField it old = Some n \<longrightarrow> \<not> isFinite n)
             \<longrightarrow> s_total ?next = num_mul (catalogPrice it) newQty)"
    using u p t f g by auto
  then show ?thesis by (intro exI [of _ ?next]) auto
qed

theorem updateSale_price_omitted_witness:
  "\<exists>next st'.
     updateSale ''s1'' (noChanges\<lparr>c_qtyKg := Given (Some (Fin 3))\<rparr>) 9
       \<lparr>items = [sampleItem ''a'' Kg (Fin 12) (Fin 5)],
        sales = [sampleSale ''s1'' ''a'' Kg (Fin 1) (Fin 10) (Fin 10)]\<rparr> = (None, st')
     \<and> sales st' = [next]
     \<and> s_kgPrice next = Some (Fin 10)
     \<and> s_total next = Fin 30"
proof -
  let ?it = "sampleItem ''a'' Kg (Fin 12) (Fin 5)"
  let ?old = "sampleSale ''s1'' ''a'' Kg (Fin 1) (Fin 10) (Fin 10)"
  let ?ch = "noChanges\<lparr>c_qtyKg := Given (Some (Fin 3))\<rparr>"
  let ?st = "\<lparr>items = [?it], sales = [?old]\<rparr> :: ledger"
  have a: "find (\<lambda>s. s_id s = ''s1'') (sales ?st) = Some ?old"
    by (simp add: sample_defs)
  have b: "itemMap (items ?st) (s_itemId ?old) = Some ?it"
    by (simp add: itemMap_def sample_defs)
  have c: "changesPriceField ?it ?ch = Omitted"
    by (simp add: sample_defs mode_defs)
  have d: "Fin 3 = clampedQty ?it (mergeSale ?old ?ch)"
    by (simp add: sample_defs mode_defs num_defs mergeSale_def spread_def)
  have e: "Fin 2 = num_sub (Fin 3) (clampedQty ?it ?old)"
    by (simp add: sample_defs mode_defs num_defs)
  have f: "\<not> (num_gt (Fin 2) (Fin 0) \<and> num_lt (stockOf ?it) (Fin 2))"
    by (simp add: sample_defs mode_defs num_defs)
  have g: "salePriceField ?it ?old = Some (Fin 10)" "i_trackBy ?it = Kg" "s_id ?old = ''s1''"
    by (simp_all add: sample_defs mode_defs)
  from updateSale_price_omitted [OF a b c d e f, of 9]
  obtain nxt st' where r: "updateSale ''s1'' ?ch 9 ?st = (None, st')"
      "sales st' = map (\<lambda>s. if s_id s = ''s1'' then nxt else s) (sales ?st)"
      "salePriceField ?it nxt = salePriceField ?it ?old"
      "s_total nxt = num_mul (finiteOr (salePriceField ?it ?old) (catalogPrice ?it)) (Fin 3)"
    by blast
  have "sales st' = [nxt]" using r(2) g(3) by simp
  moreover have "s_kgPrice nxt = Some (Fin 10)" using r(3) g(1,2) by (simp add: salePriceField_def)
  moreover have "s_total nxt = Fin 30" using r(4) g(1) by (simp add: finiteOr_def rnd_numeral)
  ultimately show ?thesis using r(1) by blast
qed

text \<open>
  The edit does not fall back to the current catalog price: the sale was made at 10, the
  item now costs 12, and raising the quantity to 2 without a price gives a total of 20 and
  leaves the price at 10.
\<close>

theorem updateSale_price_omitted_counterexample:
  "updateSale ''s1'' (noChanges\<lparr>c_qtyUnits := Given (Some (Fin 2))\<rparr>) 9
     \<lparr>items = [sampleItem ''a'' Unit (Fin 12) (Fin 5)],
      sales = [sampleSale ''s1'' ''a'' Unit (Fin 1) (Fin 10) (Fin 10)]\<rparr>
   = (None, \<lparr>items = [(sampleItem ''a'' Unit (Fin 12) (Fin 4))\<lparr>i_updatedAt := 9\<rparr>],
             sales = [sampleSale ''s1'' ''a'' Unit (Fin 2) (Fin 10) (Fin 20)]\<rparr>)
   \<and> c_unitPrice (noChanges\<lparr>c_qtyUnits := Given (Some (Fin 2))\<rparr>) = Omitted
   \<and> catalogPrice (sampleItem ''a'' Unit (Fin 12) (Fin 5)) = Fin 12
   \<and> s_unitPrice (sampleSale ''s1'' ''a'' Unit (Fin 2) (Fin 10) (Fin 20)) \<noteq> Some (Fin 12)
   \<and> s_total (sampleSale ''s1'' ''a'' Unit (Fin 2) (Fin 10) (Fin 20)) \<noteq> num_mul (Fin 12) (Fin 2)"
  by (simp add: updateSale_def adjustStock_def adjustItem_def itemMap_def mergeSale_def spread_def
      Let_def sample_defs mode_defs num_defs)

subsection \<open>Statistics\<close>

lemma baseStats_Nil: "baseStats [] = Map.empty"
  by (simp add: baseStats_def)

lemma baseStats_snoc: "baseStats (its @ [i]) = (baseStats its)(i_id i \<mapsto> zeroStats)"
  by (simp add: baseStats_def)

lemma baseStats_lookup:
  "baseStats its k = (if k \<in> i_id ` set its then Some zeroStats else None)"
  by (induction its rule: rev_induct) (auto simp: baseStats_Nil baseStats_snoc)

lemma addSaleStats_other: "s_itemId s \<noteq> k \<Longrightarrow> addSaleStats s m k = m k"
  by (simp add: addSaleStats_def split: option.splits)

lemma addSaleStats_orphan: "m (s_itemId s) = None \<Longrightarrow> addSaleStats s m = m"
  by (simp add: addSaleStats_def)

lemma addSaleStats_None: "m k = None \<Longrightarrow> addSaleStats s m k = None"
  by (cases "s_itemId s = k") (simp_all add: addSaleStats_orphan addSaleStats_other)

lemma fold_addSaleStats_None:
  "m k = None \<Longrightarrow> fold addSaleStats sls m k = None"
proof (induction sls arbitrary: m)
  case Nil
  then show ?case by simp
next
  case (Cons s sls)
  have "addSaleStats s m k = None"
    using Cons.prems by (rule addSaleStats_None)
  then have "fold addSaleStats sls (addSaleStats s m) k = None"
    by (rule Cons.IH)
  then show ?case by simp
qed

lemma fold_addSaleStats_Some:
  "m k = Some st \<Longrightarrow>
   fold addSaleStats sls m k =
     Some \<lparr>soldUnits = foldl num_add (soldUnits st)
                          (map (\<lambda>s. clampNonNeg (orZero (s_qtyUnits s))) (filter (\<lambda>s. s_itemId s = k) sls)),
           soldKg = foldl num_add (soldKg st)
                          (map (\<lambda>s. clampNonNeg (orZero (s_qtyKg s))) (filter (\<lambda>s. s_itemId s = k) sls)),
           revenue = foldl num_add (revenue st)
                          (map (\<lambda>s. clampNonNeg (orZero (Some (s_total s)))) (filter (\<lambda>s. s_itemId s = k) sls))\<rparr>"
proof (induction sls arbitrary: m st)
  case Nil
  then show ?case by simp
next
  case (Cons s sls)
  show ?case
  proof (cases "s_itemId s = k")
    case True
    let ?st' = "\<lparr>soldUnits = num_add (soldUnits st) (clampNonNeg (orZero (s_qtyUnits s))),
                 soldKg = num_add (soldKg st) (clampNonNeg (orZero (s_qtyKg s))),
                 revenue = num_add (revenue st) (clampNonNeg (orZero (Some (s_total s))))\<rparr>"
    have "addSaleStats s m k = Some ?st'"
      using Cons.prems True by (simp add: addSaleStats_def)
    from Cons.IH [of "addSaleStats s m" ?st', OF this] True show ?thesis by simp
  next
    case False
    have "addSaleStats s m k = Some st"
      using Cons.prems False by (simp add: addSaleStats_other)
    from Cons.IH [of "addSaleStats s m" st, OF this] False show ?thesis by simp
  qed
qed


lemma num_add_nonneg:
  assumes "a = PosInf \<or> (\<exists>r. 0 \<le> r \<and> a = Fin r)" and "\<exists>r. 0 \<le> r \<and> x = Fin r"
  shows "num_add a x = PosInf \<or> (\<exists>r. 0 \<le> r \<and> num_add a x = Fin r)"
proof -
  from assms(2) obtain r where r: "0 \<le> r" "x = Fin r" by auto
  from assms(1) show ?thesis
  proof
    assume "a = PosInf"
    then show ?thesis by (simp add: r(2))
  next
    assume "\<exists>r. 0 \<le> r \<and> a = Fin r"
    then obtain t where t: "0 \<le> t" "a = Fin t" by auto
    have "0 \<le> t + r" using t(1) r(1) by simp
    from rnd_nonneg [OF this] show ?thesis by (simp add: t(2) r(2))
  qed
qed

lemma foldl_num_add_nonneg:
  "a = PosInf \<or> (\<exists>r. 0 \<le> r \<and> a = Fin r) \<Longrightarrow> \<forall>x\<in>set xs. \<exists>r. 0 \<le> r \<and> x = Fin r \<Longrightarrow>
   foldl num_add a xs = PosInf \<or> (\<exists>r. 0 \<le> r \<and> foldl num_add a xs = Fin r)"
proof (induction xs arbitrary: a)
  case Nil
  then show ?case by simp
next
  case (Cons x xs)
  have "\<exists>r. 0 \<le> r \<and> x = Fin r" using Cons.prems(2) by simp
  from num_add_nonneg [OF Cons.prems(1) this]
  have "num_add a x = PosInf \<or> (\<exists>r. 0 \<le> r \<and> num_add a x = Fin r)" .
  from Cons.IH [OF this] Cons.prems(2) show ?case by simp
qed

lemma clampNonNeg_nonneg: "\<exists>r. 0 \<le> r \<and> clampNonNeg n = Fin r"
  using clampNonNeg_cases [of n] by (auto intro: less_imp_le)

lemma foldl_clamped_nonneg:
  "num_le (Fin 0) (foldl num_add (Fin 0) (map (\<lambda>s. clampNonNeg (f s)) sls))"
proof -
  have "\<forall>x\<in>set (map (\<lambda>s. clampNonNeg (f s)) sls). \<exists>r. 0 \<le> r \<and> x = Fin r"
    using clampNonNeg_nonneg by auto
  moreover have "Fin 0 = PosInf \<or> (\<exists>r. 0 \<le> r \<and> Fin 0 = Fin r)" by simp
  ultimately
  have "foldl num_add (Fin 0) (map (\<lambda>s. clampNonNeg (f s)) sls) = PosInf
        \<or> (\<exists>r. 0 \<le> r \<and> foldl num_add (Fin 0) (map (\<lambda>s. clampNonNeg (f s)) sls) = Fin r)"
    by (rule foldl_num_add_nonneg [rotated])
  then show ?thesis by (auto simp: num_le_def)
qed

lemma statsByItem_lookup:
  "statsByItem its sls k =
     (if k \<in> i_id ` set its then
        Some \<lparr>soldUnits = foldl num_add (Fin 0)
                 (map (\<lambda>s. clampNonNeg (orZero (s_qtyUnits s))) (filter (\<lambda>s. s_itemId s = k) sls)),
              soldKg = foldl num_add (Fin 0)
                 (map (\<lambda>s. clampNonNeg (orZero (s_qtyKg s))) (filter (\<lambda>s. s_itemId s = k) sls)),
              revenue = foldl num_add (Fin 0)
                 (map (\<lambda>s. clampNonNeg (orZero (Some (s_total s)))) (filter (\<lambda>s. s_itemId s = k) sls))\<rparr>
      else None)"
proof (cases "k \<in> i_id ` set its")
  case True
  then have "baseStats its k = Some zeroStats" by (simp add: baseStats_lookup)
  from fold_addSaleStats_Some [of "baseStats its" k zeroStats sls, OF this] True
  show ?thesis by (simp add: statsByItem_def zeroStats_def)
next
  case False
  then have "baseStats its k = None" by (simp add: baseStats_lookup)
  from fold_addSaleStats_None [of "baseStats its" k sls, OF this] False
  show ?thesis by (simp add: statsByItem_def)
qed

lemma filter_known_same:
  "k \<in> ids \<Longrightarrow> filter (\<lambda>s. s_itemId s = k) (filter (\<lambda>s. s_itemId s \<in> ids) sls)
                  = filter (\<lambda>s. s_itemId s = k) sls"
  by (induction sls) auto

text \<open>
  C7. \<open>statsByItem\<close> gives the same map when every sale whose \<open>itemId\<close> matches no item
  is dropped; each item id maps to the sums, in order, of the clamped quantities and clamped
  totals of its own sales, and no other key has an entry; so \<open>soldUnits\<close>, \<open>soldKg\<close> and
  \<open>revenue\<close> are never negative, whatever the stored sales carry; with no sales every item
  maps to zero.
\<close>

theorem statsByItem_skips_and_clamps:
  "statsByItem its sls = statsByItem its (filter (\<lambda>s. s_itemId s \<in> i_id ` set its) sls)
   \<and> (\<forall>k. statsByItem its sls k =
         (if k \<in> i_id ` set its then
            Some \<lparr>soldUnits = foldl num_add (Fin 0)
                     (map (\<lambda>s. clampNonNeg (orZero (s_qtyUnits s))) (filter (\<lambda>s. s_itemId s = k) sls)),
                  soldKg = foldl num_add (Fin 0)
                     (map (\<lambda>s. clampNonNeg (orZero (s_qtyKg s))) (filter (\<lambda>s. s_itemId s = k) sls)),
                  revenue = foldl num_add (Fin 0)
                     (map (\<lambda>s. clampNonNeg (orZero (Some (s_total s)))) (filter (\<lambda>s. s_itemId s = k) sls))\<rparr>
          else None))
   \<and> (\<forall>k st. statsByItem its sls k = Some st \<longrightarrow>
         num_le (Fin 0) (soldUnits st) \<and> num_le (Fin 0) (soldKg st) \<and> num_le (Fin 0) (revenue st))
   \<and> (\<forall>k. statsByItem its [] k = (if k \<in> i_id ` set its then Some zeroStats else None))"
proof (intro conjI)
  show "statsByItem its sls = statsByItem its (filter (\<lambda>s. s_itemId s \<in> i_id ` set its) sls)"
  proof
    fix k
    show "statsByItem its sls k = statsByItem its (filter (\<lambda>s. s_itemId s \<in> i_id ` set its) sls) k"
      by (simp add: statsByItem_lookup filter_known_same del: filter_filter)
  qed
next
  show "\<forall>k. statsByItem its sls k =
         (if k \<in> i_id ` set its then
            Some \<lparr>soldUnits = foldl num_add (Fin 0)
                     (map (\<lambda>s. clampNonNeg (orZero (s_qtyUnits s))) (filter (\<lambda>s. s_itemId s = k) sls)),
                  soldKg = foldl num_add (Fin 0)
                     (map (\<lambda>s. clampNonNeg (orZero (s_qtyKg s))) (filter (\<lambda>s. s_itemId s = k) sls)),
                  revenue = foldl num_add (Fin 0)
                     (map (\<lambda>s. clampNonNeg (orZero (Some (s_total s)))) (filter (\<lambda>s. s_itemId s = k) sls))\<rparr>
          else None)"
    using statsByItem_lookup by blast
next
  show "\<forall>k st. statsByItem its sls k = Some st \<longrightarrow>
         num_le (Fin 0) (soldUnits st) \<and> num_le (Fin 0) (soldKg st) \<and> num_le (Fin 0) (revenue st)"
    by (auto simp: statsByItem_lookup foldl_clamped_nonneg split: if_splits)
next
  show "\<forall>k. statsByItem its [] k = (if k \<in> i_id ` set its then Some zeroStats else None)"
    by (simp add: statsByItem_lookup zeroStats_def)
qed

theorem statsByItem_skips_and_clamps_witness:
  "statsByItem [sampleItem ''a'' Unit (Fin 10) (Fin 3)]
     [sampleSale ''s1'' ''a'' Unit (Fin 2) (Fin 10) (Fin 20),
      sampleSale ''s2'' ''zz'' Unit (Fin 5) (Fin 10) (Fin 50),
      sampleSale ''s3'' ''a'' Unit (Fin (- 4)) (Fin 10) (Fin (- 40))] ''a''
   = Some \<lparr>soldUnits = Fin 2, soldKg = Fin 0, revenue = Fin 20\<rparr>
   \<and> statsByItem [sampleItem ''a'' Unit (Fin 10) (Fin 3)]
     [sampleSale ''s1'' ''a'' Unit (Fin 2) (Fin 10) (Fin 20),
      sampleSale ''s2'' ''zz'' Unit (Fin 5) (Fin 10) (Fin 50),
      sampleSale ''s3'' ''a'' Unit (Fin (- 4)) (Fin 10) (Fin (- 40))] ''zz'' = None
   \<and> statsByItem [sampleItem ''a'' Unit (Fin 10) (Fin 3)] [] ''a'' = Some zeroStats"
proof -
  let ?its = "[sampleItem ''a'' Unit (Fin 10) (Fin 3)]"
  let ?sls = "[sampleSale ''s1'' ''a'' Unit (Fin 2) (Fin 10) (Fin 20),
      sampleSale ''s2'' ''zz'' Unit (Fin 5) (Fin 10) (Fin 50),
      sampleSale ''s3'' ''a'' Unit (Fin (- 4)) (Fin 10) (Fin (- 40))]"
  note t = statsByItem_skips_and_clamps [of ?its ?sls]
  have a: "statsByItem ?its ?sls ''a'' = Some \<lparr>soldUnits = Fin 2, soldKg = Fin 0, revenue = Fin 20\<rparr>"
    using t [THEN conjunct2, THEN conjunct1, THEN spec, of "''a''"]
    by (simp add: sample_defs num_defs)
  have b: "statsByItem ?its ?sls ''zz'' = None"
    using t [THEN conjunct2, THEN conjunct1, THEN spec, of "''zz''"]
    by (simp add: sample_defs)
  have c: "statsByItem ?its [] ''a'' = Some zeroStats"
    using t [THEN conjunct2, THEN conjunct2, THEN conjunct2, THEN spec, of "''a''"]
    by (simp add: sample_defs)
  from a b c show ?thesis by simp
qed

subsection \<open>Restoring a backup\<close>

lemma isArray_iff: "isArray v = (\<exists>xs. v = Some (JArray xs))"
  by (cases v rule: isArray.cases) auto

text \<open>
  C8. When the file does not parse, or the \<open>items\<close> or the \<open>sales\<close> property of the
  parsed value is not an array, \<open>importJson\<close> shows an alert and leaves both collections
  as they were; when both are arrays, the two collections become exactly those arrays.
\<close>

theorem importJson_all_or_nothing:
  "(parse (if text = [] then ''{}'' else text) = None \<longrightarrow>
      importJson parse text st = (Some ImportFailed, st))
   \<and> (\<forall>parsed. parse (if text = [] then ''{}'' else text) = Some parsed \<longrightarrow>
        (\<forall>its sls. getProp parsed ''items'' = Some (Some (JArray its))
                  \<and> getProp parsed ''sales'' = Some (Some (JArray sls))
            \<longrightarrow> importJson parse text st = (None, \<lparr>items = its, sales = sls\<rparr>))
        \<and> ((\<forall>its. getProp parsed ''items'' \<noteq> Some (Some (JArray its)))
            \<or> (\<forall>sls. getProp parsed ''sales'' \<noteq> Some (Some (JArray sls)))
            \<longrightarrow> (\<exists>a. importJson parse text st = (Some a, st))))"
proof (intro conjI allI impI)
  assume "parse (if text = [] then ''{}'' else text) = None"
  then show "importJson parse text st = (Some ImportFailed, st)"
    by (simp add: importJson_def)
next
  fix parsed its sls
  assume "parse (if text = [] then ''{}'' else text) = Some parsed"
    and "getProp parsed ''items'' = Some (Some (JArray its))
         \<and> getProp parsed ''sales'' = Some (Some (JArray sls))"
  then show "importJson parse text st = (None, \<lparr>items = its, sales = sls\<rparr>)"
    by (simp add: importJson_def)
next
  fix parsed
  assume p: "parse (if text = [] then ''{}'' else text) = Some parsed"
    and n: "(\<forall>its. getProp parsed ''items'' \<noteq> Some (Some (JArray its)))
            \<or> (\<forall>sls. getProp parsed ''sales'' \<noteq> Some (Some (JArray sls)))"
  show "\<exists>a. importJson parse text st = (Some a, st)"
  proof (cases "getProp parsed ''items''")
    case None
    then show ?thesis using p by (simp add: importJson_def)
  next
    case (Some its)
    note i = Some
    show ?thesis
    proof (cases "isArray its")
      case False
      then show ?thesis using p i by (simp add: importJson_def)
    next
      case True
      then have ns: "\<forall>sls. getProp parsed ''sales'' \<noteq> Some (Some (JArray sls))"
        using n i by (auto simp: isArray_iff)
      show ?thesis
      proof (cases "getProp parsed ''sales''")
        case None
        then show ?thesis using p i True by (simp add: importJson_def)
      next
        case (Some sls)
        then have "\<not> isArray sls" using ns by (auto simp: isArray_iff)
        then show ?thesis using p i True Some by (simp add: importJson_def)
      qed
    qed
  qed
qed

theorem importJson_all_or_nothing_witness:
  "importJson (\<lambda>t. if t = ''{}'' then Some (JObject []) else None) ''not json''
     \<lparr>items = [JNumber (Fin 1)], sales = [JNumber (Fin 2)]\<rparr>
   = (Some ImportFailed, \<lparr>items = [JNumber (Fin 1)], sales = [JNumber (Fin 2)]\<rparr>)
   \<and> importJson (\<lambda>t. Some (JObject [(''version'', JNumber (Fin 2)),
                                     (''items'', JArray [JString ''i'']),
                                     (''sales'', JArray [])])) ''backup''
     \<lparr>items = [JNumber (Fin 1)], sales = [JNumber (Fin 2)]\<rparr>
   = (None, \<lparr>items = [JString ''i''], sales = []\<rparr>)
   \<and> (\<exists>a. importJson (\<lambda>t. Some (JObject [(''items'', JArray [JString ''i''])])) ''backup''
     \<lparr>items = [JNumber (Fin 1)], sales = [JNumber (Fin 2)]\<rparr>
   = (Some a, \<lparr>items = [JNumber (Fin 1)], sales = [JNumber (Fin 2)]\<rparr>))"
proof -
  let ?st = "\<lparr>items = [JNumber (Fin 1)], sales = [JNumber (Fin 2)]\<rparr> :: (json, json) state"
  let ?p1 = "\<lambda>t::string. if t = ''{}'' then Some (JObject []) else None"
  let ?ok = "JObject [(''version'', JNumber (Fin 2)), (''items'', JArray [JString ''i'']), (''sales'', JArray [])]"
  let ?bad = "JObject [(''items'', JArray [JString ''i''])]"
  have a: "importJson ?p1 ''not json'' ?st = (Some ImportFailed, ?st)"
    using importJson_all_or_nothing [of ?p1 "''not json''" ?st, THEN conjunct1] by simp
  have b: "importJson (\<lambda>t. Some ?ok) ''backup'' ?st = (None, \<lparr>items = [JString ''i''], sales = []\<rparr>)"
    using importJson_all_or_nothing [of "\<lambda>t. Some ?ok" "''backup''" ?st, THEN conjunct2,
        THEN spec, of ?ok] by simp
  have c: "\<exists>a. importJson (\<lambda>t. Some ?bad) ''backup'' ?st = (Some a, ?st)"
    using importJson_all_or_nothing [of "\<lambda>t. Some ?bad" "''backup''" ?st, THEN conjunct2,
        THEN spec, of ?bad] by simp
  from a b c show ?thesis by simp
qed

subsection \<open>Updating an item\<close>

text \<open>
  C9. For an item whose id is the non-empty id of the partial object, \<open>upsertItem\<close>
  replaces it by the item in which every key the partial object gives has the given value,
  as it is, without clamping or any other check, every key it leaves out has the value of
  before, and \<open>updatedAt\<close> is the clock; items with another id are untouched. Hence some
  partial object with that id leaves the item with a negative stock in its mode.
\<close>

theorem upsertItem_merges_verbatim:
  assumes "pid \<noteq> []" and "n < length its" and "i_id (its ! n) = pid"
  shows "(\<forall>p. u_id p = Given pid \<longrightarrow>
            length (upsertItem newId now p its) = length its
            \<and> (\<forall>m<length its. i_id (its ! m) \<noteq> pid \<longrightarrow> upsertItem newId now p its ! m = its ! m)
            \<and> upsertItem newId now p its ! n =
                \<lparr>i_id = pid,
                 i_name = (case u_name p of Omitted \<Rightarrow> i_name (its ! n) | Given v \<Rightarrow> v),
                 i_sku = (case u_sku p of Omitted \<Rightarrow> i_sku (its ! n) | Given v \<Rightarrow> v),
                 i_photoDataUrl =
                   (case u_photoDataUrl p of Omitted \<Rightarrow> i_photoDataUrl (its ! n) | Given v \<Rightarrow> v),
                 i_trackBy = (case u_trackBy p of Omitted \<Rightarrow> i_trackBy (its ! n) | Given v \<Rightarrow> v),
                 i_unitLabel =
                   (case u_unitLabel p of Omitted \<Rightarrow> i_unitLabel (its ! n) | Given v \<Rightarrow> v),
                 i_pricePerUnit =
                   (case u_pricePerUnit p of Omitted \<Rightarrow> i_pricePerUnit (its ! n) | Given v \<Rightarrow> v),
                 i_pricePerKg =
                   (case u_pricePerKg p of Omitted \<Rightarrow> i_pricePerKg (its ! n) | Given v \<Rightarrow> v),
                 i_stockUnits =
                   (case u_stockUnits p of Omitted \<Rightarrow> i_stockUnits (its ! n) | Given v \<Rightarrow> v),
                 i_stockKg = (case u_stockKg p of Omitted \<Rightarrow> i_stockKg (its ! n) | Given v \<Rightarrow> v),
                 i_createdAt =
                   (case u_createdAt p of Omitted \<Rightarrow> i_createdAt (its ! n) | Given v \<Rightarrow> v),
                 i_updatedAt = now\<rparr>)
         \<and> (\<exists>p. u_id p = Given pid \<and> \<not> stockNonNeg (upsertItem newId now p its ! n))"
proof -
  have A: "\<forall>p. u_id p = Given pid \<longrightarrow>
            length (upsertItem newId now p its) = length its
            \<and> (\<forall>m<length its. i_id (its ! m) \<noteq> pid \<longrightarrow> upsertItem newId now p its ! m = its ! m)
            \<and> upsertItem newId now p its ! n =
                \<lparr>i_id = pid,
                 i_name = (case u_name p of Omitted \<Rightarrow> i_name (its ! n) | Given v \<Rightarrow> v),
                 i_sku = (case u_sku p of Omitted \<Rightarrow> i_sku (its ! n) | Given v \<Rightarrow> v),
                 i_photoDataUrl =
                   (case u_photoDataUrl p of Omitted \<Rightarrow> i_photoDataUrl (its ! n) | Given v \<Rightarrow> v),
                 i_trackBy = (case u_trackBy p of Omitted \<Rightarrow> i_trackBy (its ! n) | Given v \<Rightarrow> v),
                 i_unitLabel =
                   (case u_unitLabel p of Omitted \<Rightarrow> i_unitLabel (its ! n) | Given v \<Rightarrow> v),
                 i_pricePerUnit =
                   (case u_pricePerUnit p of Omitted \<Rightarrow> i_pricePerUnit (its ! n) | Given v \<Rightarrow> v),
                 i_pricePerKg =
                   (case u_pricePerKg p of Omitted \<Rightarrow> i_pricePerKg (its ! n) | Given v \<Rightarrow> v),
                 i_stockUnits =
                   (case u_stockUnits p of Omitted \<Rightarrow> i_stockUnits (its ! n) | Given v \<Rightarrow> v),
                 i_stockKg = (case u_stockKg p of Omitted \<Rightarrow> i_stockKg (its ! n) | Given v \<Rightarrow> v),
                 i_createdAt =
                   (case u_createdAt p of Omitted \<Rightarrow> i_createdAt (its ! n) | Given v \<Rightarrow> v),
                 i_updatedAt = now\<rparr>"
  proof (intro allI impI)
    fix p :: partialItem
    assume p: "u_id p = Given pid"
    have u: "upsertItem newId now p its = map (\<lambda>i. if i_id i = pid then mergeItem i p now else i) its"
      using p assms(1) by (simp add: upsertItem_def)
    have m: "upsertItem newId now p its ! n = mergeItem (its ! n) p now"
      using assms(2,3) by (simp add: u)
    have l: "length (upsertItem newId now p its) = length its"
      by (simp add: u)
    have o: "\<forall>m<length its. i_id (its ! m) \<noteq> pid \<longrightarrow> upsertItem newId now p its ! m = its ! m"
      by (simp add: u)
    have r: "mergeItem (its ! n) p now =
                \<lparr>i_id = pid,
                 i_name = (case u_name p of Omitted \<Rightarrow> i_name (its ! n) | Given v \<Rightarrow> v),
                 i_sku = (case u_sku p of Omitted \<Rightarrow> i_sku (its ! n) | Given v \<Rightarrow> v),
                 i_photoDataUrl =
                   (case u_photoDataUrl p of Omitted \<Rightarrow> i_photoDataUrl (its ! n) | Given v \<Rightarrow> v),
                 i_trackBy = (case u_trackBy p of Omitted \<Rightarrow> i_trackBy (its ! n) | Given v \<Rightarrow> v),
                 i_unitLabel =
                   (case u_unitLabel p of Omitted \<Rightarrow> i_unitLabel (its ! n) | Given v \<Rightarrow> v),
                 i_pricePerUnit =
                   (case u_pricePerUnit p of Omitted \<Rightarrow> i_pricePerUnit (its ! n) | Given v \<Rightarrow> v),
                 i_pricePerKg =
                   (case u_pricePerKg p of Omitted \<Rightarrow> i_pricePerKg (its ! n) | Given v \<Rightarrow> v),
                 i_stockUnits =
                   (case u_stockUnits p of Omitted \<Rightarrow> i_stockUnits (its ! n) | Given v \<Rightarrow> v),
                 i_stockKg = (case u_stockKg p of Omitted \<Rightarrow> i_stockKg (its ! n) | Given v \<Rightarrow> v),
                 i_createdAt =
                   (case u_createdAt p of Omitted \<Rightarrow> i_createdAt (its ! n) | Given v \<Rightarrow> v),
                 i_updatedAt = now\<rparr>"
      by (simp add: mergeItem_def spread_def p)
    from l o m r
    show "length (upsertItem newId now p its) = length its
            \<and> (\<forall>m<length its. i_id (its ! m) \<noteq> pid \<longrightarrow> upsertItem newId now p its ! m = its ! m)
            \<and> upsertItem newId now p its ! n =
                \<lparr>i_id = pid,
                 i_name = (case u_name p of Omitted \<Rightarrow> i_name (its ! n) | Given v \<Rightarrow> v),
                 i_sku = (case u_sku p of Omitted \<Rightarrow> i_sku (its ! n) | Given v \<Rightarrow> v),
                 i_photoDataUrl =
                   (case u_photoDataUrl p of Omitted \<Rightarrow> i_photoDataUrl (its ! n) | Given v \<Rightarrow> v),
                 i_trackBy = (case u_trackBy p of Omitted \<Rightarrow> i_trackBy (its ! n) | Given v \<Rightarrow> v),
                 i_unitLabel =
                   (case u_unitLabel p of Omitted \<Rightarrow> i_unitLabel (its ! n) | Given v \<Rightarrow> v),
                 i_pricePerUnit =
                   (case u_pricePerUnit p of Omitted \<Rightarrow> i_pricePerUnit (its ! n) | Given v \<Rightarrow> v),
                 i_pricePerKg =
                   (case u_pricePerKg p of Omitted \<Rightarrow> i_pricePerKg (its ! n) | Given v \<Rightarrow> v),
                 i_stockUnits =
                   (case u_stockUnits p of Omitted \<Rightarrow> i_stockUnits (its ! n) | Given v \<Rightarrow> v),
                 i_stockKg = (case u_stockKg p of Omitted \<Rightarrow> i_stockKg (its ! n) | Given v \<Rightarrow> v),
                 i_createdAt =
                   (case u_createdAt p of Omitted \<Rightarrow> i_createdAt (its ! n) | Given v \<Rightarrow> v),
                 i_updatedAt = now\<rparr>"
      by (simp only: simp_thms)
  qed
  let ?p = "noFields\<lparr>u_id := Given pid, u_stockUnits := Given (Some (Fin (- 1))),
                      u_stockKg := Given (Some (Fin (- 1)))\<rparr>"
  have u: "upsertItem newId now ?p its ! n = mergeItem (its ! n) ?p now"
    using assms by (simp add: upsertItem_def noFields_def)
  have "\<not> stockNonNeg (mergeItem (its ! n) ?p now)"
    by (simp add: mergeItem_def spread_def noFields_def mode_defs num_defs)
  then have "u_id ?p = Given pid \<and> \<not> stockNonNeg (upsertItem newId now ?p its ! n)"
    by (simp add: u)
  then have B: "\<exists>p. u_id p = Given pid \<and> \<not> stockNonNeg (upsertItem newId now p its ! n)"
    by blast
  from A B show ?thesis by blast
qed

theorem upsertItem_merges_verbatim_witness:
  "stockNonNeg (sampleItem ''a'' Unit (Fin 10) (Fin 3))
   \<and> upsertItem ''new'' 7 (noFields\<lparr>u_id := Given ''a'', u_stockUnits := Given (Some (Fin (- 5)))\<rparr>)
       [sampleItem ''a'' Unit (Fin 10) (Fin 3)] ! 0
     = (sampleItem ''a'' Unit (Fin 10) (Fin (- 5)))\<lparr>i_updatedAt := 7\<rparr>
   \<and> \<not> stockNonNeg ((sampleItem ''a'' Unit (Fin 10) (Fin (- 5)))\<lparr>i_updatedAt := 7\<rparr>)"
proof -
  let ?its = "[sampleItem ''a'' Unit (Fin 10) (Fin 3)]"
  let ?p = "noFields\<lparr>u_id := Given ''a'', u_stockUnits := Given (Some (Fin (- 5)))\<rparr>"
  have a: "''a'' \<noteq> []" "0 < length ?its" "i_id (?its ! 0) = ''a''"
    by (simp_all add: sample_defs)
  have b: "u_id ?p = Given ''a''" by (simp add: noFields_def)
  from upsertItem_merges_verbatim [OF a, of "''new''" 7, THEN conjunct1, THEN spec, of ?p] b
  have "upsertItem ''new'' 7 ?p ?its ! 0 = (sampleItem ''a'' Unit (Fin 10) (Fin (- 5)))\<lparr>i_updatedAt := 7\<rparr>"
    by (simp add: noFields_def sample_defs)
  then show ?thesis
    by (simp add: sample_defs mode_defs num_defs)
qed

end
